theory Spec2Isabelle
  imports Complex_Main
begin

section \<open>Text\<close>

text \<open>
  A Python \<^verbatim>\<open>str\<close> is a sequence of Unicode code points, and the validity check of the
  pipeline compares code points with the Hiragana, Katakana and CJK ranges. Text is
  therefore a list of code points; \<open>ustr\<close> reads an ASCII literal as such a list.
\<close>

type_synonym ustr = "nat list"

definition ustr :: "string \<Rightarrow> ustr" where
  "ustr s = map of_char s"

text \<open>
  \<^verbatim>\<open>str.isspace\<close>, which is also the class \<^verbatim>\<open>\s\<close> of a \<^verbatim>\<open>str\<close> pattern and the set that
  \<^verbatim>\<open>str.strip()\<close> removes.
\<close>

definition isspace :: "nat \<Rightarrow> bool" where
  "isspace c \<longleftrightarrow>
     (0x9 \<le> c \<and> c \<le> 0xD) \<or> (0x1C \<le> c \<and> c \<le> 0x20) \<or> c = 0x85 \<or> c = 0xA0 \<or>
     c = 0x1680 \<or> (0x2000 \<le> c \<and> c \<le> 0x200A) \<or> c = 0x2028 \<or> c = 0x2029 \<or>
     c = 0x202F \<or> c = 0x205F \<or> c = 0x3000"

text \<open>
  The class \<^verbatim>\<open>\d\<close> of a \<^verbatim>\<open>str\<close> pattern is the Unicode decimal digits. They come in runs
  of ten (the mathematical digits in five adjacent runs); the table is the one of
  Unicode 14.0, which CPython 3.11 carries.
\<close>

definition decimal_runs :: "nat list" where
  "decimal_runs =
     [0x30, 0x660, 0x6F0, 0x7C0, 0x966, 0x9E6, 0xA66, 0xAE6, 0xB66, 0xBE6, 0xC66, 0xCE6,
      0xD66, 0xDE6, 0xE50, 0xED0, 0xF20, 0x1040, 0x1090, 0x17E0, 0x1810, 0x1946, 0x19D0,
      0x1A80, 0x1A90, 0x1B50, 0x1BB0, 0x1C40, 0x1C50, 0xA620, 0xA8D0, 0xA900, 0xA9D0,
      0xA9F0, 0xAA50, 0xABF0, 0xFF10, 0x104A0, 0x10D30, 0x11066, 0x110F0, 0x11136,
      0x111D0, 0x112F0, 0x11450, 0x114D0, 0x11650, 0x116C0, 0x11730, 0x118E0, 0x11950,
      0x11C50, 0x11D50, 0x11DA0, 0x16A60, 0x16AC0, 0x16B50, 0x1D7CE, 0x1D7D8, 0x1D7E2,
      0x1D7EC, 0x1D7F6, 0x1E140, 0x1E2F0, 0x1E950, 0x1FBF0]"

definition isdecimal :: "nat \<Rightarrow> bool" where
  "isdecimal c \<longleftrightarrow> list_ex (\<lambda>r. r \<le> c \<and> c < r + 10) decimal_runs"

text \<open>\<^verbatim>\<open>str.strip()\<close>: leading and trailing whitespace removed.\<close>

definition strip :: "ustr \<Rightarrow> ustr" where
  "strip s = rev (dropWhile isspace (rev (dropWhile isspace s)))"

text \<open>\<^verbatim>\<open>str.split('\n')\<close>: the pieces between line feeds; the empty text gives one empty piece.\<close>

fun split_lines :: "ustr \<Rightarrow> ustr list" where
  "split_lines [] = [[]]"
| "split_lines (c # cs) =
     (if c = 0xA then [] # split_lines cs
      else (case split_lines cs of l # ls \<Rightarrow> (c # l) # ls | [] \<Rightarrow> [[c]]))"

text \<open>\<^verbatim>\<open>sep.join(parts)\<close>.\<close>

fun join :: "ustr \<Rightarrow> ustr list \<Rightarrow> ustr" where
  "join sep [] = []"
| "join sep [p] = p"
| "join sep (p # q # ps) = p @ sep @ join sep (q # ps)"

text \<open>
  \<^verbatim>\<open>s.replace(old, new)\<close>: the occurrences of \<open>old\<close> are found from the left without
  overlap; an empty \<open>old\<close> matches before every code point and at the end.
\<close>

function replace :: "ustr \<Rightarrow> ustr \<Rightarrow> ustr \<Rightarrow> ustr" where
  "replace old new s =
     (if old = [] then new @ concat (map (\<lambda>c. c # new) s)
      else if s = [] then []
      else if take (length old) s = old then new @ replace old new (drop (length old) s)
      else hd s # replace old new (tl s))"
  by pat_completeness auto
termination
proof (relation "measure (\<lambda>(old, new, s). length s)")
  fix old new s :: ustr
  assume "s \<noteq> []"
  then show "((old, new, tl s), old, new, s) \<in> measure (\<lambda>(old, new, s). length s)"
    by (cases s) simp_all
qed simp_all

declare replace.simps [simp del]

text \<open>
  \<^verbatim>\<open>str.lower()\<close> as the comparison with the literal \<^verbatim>\<open>'monologue'\<close> observes it: the
  letters A to Z go to a to z; no other code point lowers to text containing a letter of
  the literal, so leaving it in place gives the same comparison.
\<close>

definition lower :: "ustr \<Rightarrow> ustr" where
  "lower s = map (\<lambda>c. if 0x41 \<le> c \<and> c \<le> 0x5A then c + 0x20 else c) s"

text \<open>Decimal rendering of an integer, as an f-string prints it.\<close>

function digits_of :: "nat \<Rightarrow> ustr" where
  "digits_of n = (if n < 10 then [0x30 + n] else digits_of (n div 10) @ [0x30 + n mod 10])"
  by pat_completeness auto
termination
  by (relation "measure id") auto

declare digits_of.simps [simp del]

definition str_of_int :: "int \<Rightarrow> ustr" where
  "str_of_int i = (if i < 0 then 0x2D # digits_of (nat (- i)) else digits_of (nat i))"

section \<open>Data model\<close>

record choice =
  c_jpText :: ustr
  c_enText :: ustr

text \<open>
  A block of the \<^verbatim>\<open>text\<close> array. The code reads every field with
  \<^verbatim>\<open>block.get(key, '')\<close>, so a missing key is the empty text, and a missing
  \<^verbatim>\<open>choices\<close> key is the empty list.
\<close>

record block =
  blockIdx :: int
  jpName :: ustr
  jpText :: ustr
  enName :: ustr
  enText :: ustr
  choices :: "choice list"

record context_entry =
  ctx_jpName :: ustr
  ctx_jpText :: ustr
  ctx_enName :: ustr
  ctx_enText :: ustr

text \<open>
  The slot a translation is assigned to: \<^verbatim>\<open>obj['enName']\<close> or \<^verbatim>\<open>obj['enText']\<close> of
  the block at a position of the record set, or \<^verbatim>\<open>obj['enText']\<close> of a choice of that
  block. This is the pair (item type, owning object) of a collected item; the blocks of
  a loaded record set are distinct objects, so a position identifies the object.
\<close>

datatype slot = NameSlot nat | TextSlot nat | ChoiceSlot nat nat

text \<open>A collected item \<^verbatim>\<open>(item_type, obj, original_text, block_idx)\<close>.\<close>

record item =
  it_slot :: slot
  it_text :: ustr
  it_idx :: nat

text \<open>
  The keys of \<^verbatim>\<open>llm_settings\<close>. The remote client reads the first six by subscript
  while it builds the request and posts it; they are taken as present, as a
  configuration file ships them. \<open>min_p\<close>, \<open>top_p\<close> and \<open>top_k\<close> are read with
  \<^verbatim>\<open>.get\<close> and may be absent.
\<close>

record llm_config =
  api_url :: ustr
  api_key :: ustr
  model :: ustr
  system_prompt :: ustr
  temperature :: rat
  max_tokens :: int
  min_p :: "rat option"
  top_p :: "rat option"
  top_k :: "int option"

text \<open>
  The keys of \<^verbatim>\<open>translation_settings\<close> that the engine reads; each of them may be
  absent. The remote client reads \<open>retry_attempts\<close> and \<open>retry_delay\<close> with \<^verbatim>\<open>[...]\<close>,
  which raises \<^verbatim>\<open>KeyError\<close> on an absent key; every other read is a
  \<^verbatim>\<open>.get(key, default)\<close>.
\<close>

record trans_config =
  retry_attempts :: "int option"
  retry_delay :: "rat option"
  retry_on_japanese :: "bool option"
  use_batch_translation :: "bool option"
  batch_size :: "int option"
  batch_delay :: "rat option"
  enable_two_pass :: "bool option"
  second_pass_model :: "ustr option"
  second_pass_temperature :: "rat option"

record request =
  rq_url :: ustr
  rq_key :: ustr
  rq_model :: ustr
  rq_system :: ustr
  rq_user :: ustr
  rq_temperature :: rat
  rq_max_tokens :: int
  rq_min_p :: rat
  rq_top_p :: "rat option"
  rq_top_k :: "int option"

text \<open>
  What the pipeline does to the world, in order: a request posted to the remote
  endpoint, a \<^verbatim>\<open>time.sleep\<close>, an assignment to a slot of the record set.
\<close>

datatype event = Post request | Sleep rat | Write slot ustr

text \<open>
  What one post yields: \<open>Failure\<close> is every exception raised inside the \<^verbatim>\<open>try\<close> of
  \<^verbatim>\<open>call_llm\<close> that its \<^verbatim>\<open>except Exception\<close> clause catches (connection error,
  timeout, non-success status, a body without the completion text), with the text
  \<^verbatim>\<open>str(e)\<close> of the exception; \<open>Content\<close> is
  \<^verbatim>\<open>result['choices'][0]['message']['content']\<close>.
  The remote service answers the k-th post (counted from 0) according to the request.
\<close>

datatype reply = Failure ustr | Content ustr

type_synonym remote = "nat \<Rightarrow> request \<Rightarrow> reply"

text \<open>The exceptions that leave a method of the engine.\<close>

datatype exc =
    ValueError | OverflowError | ZeroDivisionError | KeyError | RecursionError
  | UnicodeEncodeError

text \<open>
  The lines the engine prints where it deals with a failure: in the handler of the
  remote client, before a validation retry, and throughout the escalation pass. A
  constructor is one \<^verbatim>\<open>print\<close> statement of the source, with the values its text is
  formatted from, in the order of the source: two lines of \<^verbatim>\<open>call_llm\<close>, two of
  \<^verbatim>\<open>translate_text\<close>, two of \<^verbatim>\<open>translate_batch\<close>, and from \<open>PassBanner\<close> on the
  lines of \<^verbatim>\<open>_second_pass_translation\<close>. The progress lines printed elsewhere (the debug lines of the remote
  client, the lines of the first pass, of the sequential translator and of
  \<^verbatim>\<open>translate_json_file\<close>) are left out.
\<close>

datatype line =
    ErrorCalling ustr
  | Retrying int int
  | WarnText ustr
  | RetryText int int
  | WarnBatch nat ustr
  | RetryBatch int int
  | PassBanner
  | PassFound nat
  | SameModel
  | SameModelTip
  | SameModelSkip
  | UsingModel ustr rat
  | LoadNote
  | PassBatch int int
  | PassFailed exc
  | MayNotBeLoaded ustr
  | EmptyResults
  | NotLoaded ustr
  | KeepOriginal nat
  | NameFixed nat ustr
  | TextFixed nat ustr
  | StillJapanese nat
  | Incomplete
  | HowTo
  | HowToLoad ustr
  | HowToSet
  | HowToDisable
  | PassComplete int nat

text \<open>
  What the engine runs on. \<open>remote\<close> is the service behind the endpoint. \<open>console\<close>
  tells of a line whether \<^verbatim>\<open>print\<close> returns; where it does not, \<^verbatim>\<open>print\<close> raises
  \<^verbatim>\<open>UnicodeEncodeError\<close> (a code point that the encoding of the standard output
  lacks, or a lone surrogate). \<open>frames\<close> is the number of further nested calls of a
  retrying method that the recursion limit of the interpreter leaves room for: the
  retry of \<^verbatim>\<open>call_llm\<close>, \<^verbatim>\<open>translate_text\<close> and \<^verbatim>\<open>translate_batch\<close> is a call of
  the method from within itself, and such a call raises \<^verbatim>\<open>RecursionError\<close> when no
  room is left. \<open>sleep_max\<close> is the longest delay \<^verbatim>\<open>time.sleep\<close> takes on the
  platform.
\<close>

record runtime =
  remote :: remote
  console :: "line \<Rightarrow> bool"
  frames :: nat
  sleep_max :: rat

record pipeline =
  llm_config :: llm_config
  trans_config :: trans_config
  dictionary :: "(ustr \<times> ustr) list"
  context_lines :: int
  current_context :: "context_entry list"
  events :: "event list"

definition posts :: "event list \<Rightarrow> nat" where
  "posts es = length (filter (\<lambda>e. case e of Post _ \<Rightarrow> True | _ \<Rightarrow> False) es)"

text \<open>
  \<^verbatim>\<open>time.sleep(d)\<close> raises \<^verbatim>\<open>ValueError\<close> for a negative \<open>d\<close> and
  \<^verbatim>\<open>OverflowError\<close> for a \<open>d\<close> beyond what the platform's clock type holds.
\<close>

definition sleep :: "runtime \<Rightarrow> rat \<Rightarrow> pipeline \<Rightarrow> (exc + unit) \<times> pipeline" where
  "sleep rt d s =
     (if d < 0 then (Inl ValueError, s)
      else if sleep_max rt < d then (Inl OverflowError, s)
      else (Inr (), s\<lparr>events := events s @ [Sleep d]\<rparr>))"

text \<open>A sequence of \<^verbatim>\<open>print\<close> statements returns when the console takes every line.\<close>

definition prints :: "runtime \<Rightarrow> line list \<Rightarrow> bool" where
  "prints rt ls = list_all (console rt) ls"

section \<open>Dictionary preprocessor, validity check, context window\<close>

fun preprocess_loop :: "(ustr \<times> ustr) list \<Rightarrow> ustr \<Rightarrow> ustr" where
  "preprocess_loop [] preprocessed = preprocessed"
| "preprocess_loop ((jp_term, en_term) # rest) preprocessed =
     preprocess_loop rest (replace jp_term en_term preprocessed)"

definition preprocess_text :: "pipeline \<Rightarrow> ustr \<Rightarrow> ustr" where
  "preprocess_text s text = preprocess_loop (dictionary s) text"

definition japanese_code :: "nat \<Rightarrow> bool" where
  "japanese_code code \<longleftrightarrow>
     (0x3040 \<le> code \<and> code \<le> 0x309F) \<or> (0x30A0 \<le> code \<and> code \<le> 0x30FF) \<or>
     (0x4E00 \<le> code \<and> code \<le> 0x9FFF)"

definition contains_japanese :: "ustr \<Rightarrow> bool" where
  "contains_japanese text = (if text = [] then False else list_ex japanese_code text)"

definition add_to_context :: "ustr \<Rightarrow> ustr \<Rightarrow> ustr \<Rightarrow> ustr \<Rightarrow> pipeline \<Rightarrow> pipeline" where
  "add_to_context jp_name jp_text en_name en_text s =
     (if context_lines s > 0 then
        (let appended = current_context s @
               [\<lparr>ctx_jpName = jp_name, ctx_jpText = jp_text,
                 ctx_enName = en_name, ctx_enText = en_text\<rparr>]
         in if int (length appended) > context_lines s
            then s\<lparr>current_context := tl appended\<rparr>
            else s\<lparr>current_context := appended\<rparr>)
      else s)"

definition reset_context :: "pipeline \<Rightarrow> pipeline" where
  "reset_context s = s\<lparr>current_context := []\<rparr>"

definition render_entry :: "context_entry \<Rightarrow> ustr" where
  "render_entry ctx =
     (if ctx_enText ctx \<noteq> []
      then ctx_jpName ctx @ ustr '': '' @ ctx_jpText ctx @ [0xA] @ ustr ''[Translation]: '' @
           ctx_enName ctx @ ustr '': '' @ ctx_enText ctx
      else ctx_jpName ctx @ ustr '': '' @ ctx_jpText ctx)"

definition build_context_string :: "pipeline \<Rightarrow> ustr" where
  "build_context_string s =
     (if current_context s = [] then []
      else [0xA, 0xA] @ ustr ''Previous dialogue for context:'' @ [0xA] @
           join [0xA] (map render_entry (current_context s)) @
           [0xA, 0xA] @ ustr ''Now translate:'')"

section \<open>Remote translation client\<close>

definition build_request :: "pipeline \<Rightarrow> ustr \<Rightarrow> ustr \<Rightarrow> request" where
  "build_request s text context =
     (let user_message = (if context \<noteq> [] then context @ [0xA] @ text else text)
      in \<lparr>rq_url = api_url (llm_config s),
          rq_key = api_key (llm_config s),
          rq_model = model (llm_config s),
          rq_system = system_prompt (llm_config s),
          rq_user = ustr ''Translate this to English: '' @ user_message,
          rq_temperature = temperature (llm_config s),
          rq_max_tokens = max_tokens (llm_config s),
          rq_min_p = (case min_p (llm_config s) of None \<Rightarrow> 1 / 20 | Some v \<Rightarrow> v),
          rq_top_p = top_p (llm_config s),
          rq_top_k = top_k (llm_config s)\<rparr>)"

text \<open>
  \<^verbatim>\<open>call_llm\<close>. The post is logged, the remote answers it. A failure inside the
  \<^verbatim>\<open>try\<close> is handled as the \<^verbatim>\<open>except\<close> clause does, statement by statement: the error
  line is printed, \<open>retry_attempts\<close> is read, and while \<open>retry_count\<close> is below it the
  retry line is printed, \<open>retry_delay\<close> is read and slept, and the method calls itself;
  otherwise the result is \<open>None\<close>. The two debug prints of the path without a failure
  and their flags are left out.
\<close>

function call_llm ::
  "runtime \<Rightarrow> ustr \<Rightarrow> ustr \<Rightarrow> int \<Rightarrow> pipeline \<Rightarrow> (exc + ustr option) \<times> pipeline" where
  "call_llm rt text context retry_count s =
     (let req = build_request s text context;
          s1 = s\<lparr>events := events s @ [Post req]\<rparr>
      in case remote rt (posts (events s)) req of
           Content c \<Rightarrow> (Inr (Some (strip c)), s1)
         | Failure e \<Rightarrow>
             if \<not> console rt (ErrorCalling e) then (Inl UnicodeEncodeError, s1)
             else
               (case retry_attempts (trans_config s1) of
                  None \<Rightarrow> (Inl KeyError, s1)
                | Some n \<Rightarrow>
                    if retry_count < n then
                      (if \<not> console rt (Retrying (retry_count + 1) n)
                       then (Inl UnicodeEncodeError, s1)
                       else
                         (case retry_delay (trans_config s1) of
                            None \<Rightarrow> (Inl KeyError, s1)
                          | Some d \<Rightarrow>
                              (case sleep rt d s1 of
                                 (Inl x, s2) \<Rightarrow> (Inl x, s2)
                               | (Inr u, s2) \<Rightarrow>
                                   if frames rt = 0 then (Inl RecursionError, s2)
                                   else call_llm (rt\<lparr>frames := frames rt - 1\<rparr>)
                                          text context (retry_count + 1) s2)))
                    else (Inr None, s1)))"
  by pat_completeness auto
termination
  by (relation "measure (\<lambda>(rt, text, context, retry_count, s). frames rt)") auto

declare call_llm.simps [simp del]

section \<open>Single-unit translation\<close>

text \<open>
  The configured flag \<^verbatim>\<open>retry_on_japanese\<close>, on by default, and the two settings of
  the validation retry as \<^verbatim>\<open>translate_text\<close> and \<^verbatim>\<open>translate_batch\<close> read them:
  \<^verbatim>\<open>.get('retry_attempts', 3)\<close> and \<^verbatim>\<open>.get('retry_delay', 2)\<close>.
\<close>

definition retry_on :: "pipeline \<Rightarrow> bool" where
  "retry_on s = (case retry_on_japanese (trans_config s) of None \<Rightarrow> True | Some b \<Rightarrow> b)"

definition max_retries :: "pipeline \<Rightarrow> int" where
  "max_retries s = (case retry_attempts (trans_config s) of None \<Rightarrow> 3 | Some n \<Rightarrow> n)"

definition retry_pause :: "pipeline \<Rightarrow> rat" where
  "retry_pause s = (case retry_delay (trans_config s) of None \<Rightarrow> 2 | Some d \<Rightarrow> d)"

function translate_text ::
  "runtime \<Rightarrow> ustr \<Rightarrow> bool \<Rightarrow> bool \<Rightarrow> int \<Rightarrow> pipeline \<Rightarrow> (exc + ustr) \<times> pipeline" where
  "translate_text rt text is_name use_context retry_count s =
     (let preprocessed = preprocess_text s text;
          context = (if use_context \<and> \<not> is_name \<and> context_lines s > 0
                     then build_context_string s else [])
      in if is_name \<and> preprocessed \<noteq> text then (Inr preprocessed, s)
         else
           (case call_llm rt preprocessed context 0 s of
              (Inl x, s1) \<Rightarrow> (Inl x, s1)
            | (Inr None, s1) \<Rightarrow> (Inr preprocessed, s1)
            | (Inr (Some translated), s1) \<Rightarrow>
                if translated = [] then (Inr preprocessed, s1)
                else if retry_on s1 \<and> retry_count < max_retries s1 \<and>
                        contains_japanese translated then
                  (if \<not> prints rt [WarnText (take 50 translated),
                                     RetryText (retry_count + 1) (max_retries s1)]
                   then (Inl UnicodeEncodeError, s1)
                   else
                     (case sleep rt (retry_pause s1) s1 of
                        (Inl x, s2) \<Rightarrow> (Inl x, s2)
                      | (Inr u, s2) \<Rightarrow>
                          if frames rt = 0 then (Inl RecursionError, s2)
                          else translate_text (rt\<lparr>frames := frames rt - 1\<rparr>)
                                 text is_name use_context (retry_count + 1) s2))
                else (Inr translated, s1)))"
  by pat_completeness auto
termination
  by (relation "measure (\<lambda>(rt, text, is_name, use_context, retry_count, s). frames rt)") auto

declare translate_text.simps [simp del]

section \<open>Batch translation\<close>

text \<open>
  \<^verbatim>\<open>re.match(r'^\d+[\.\)\:]\s*(.+)$', line)\<close> on a line without a line feed (the lines
  come from \<^verbatim>\<open>split('\n')\<close>): group 1 when the pattern matches. The digits are the
  longest run, since a separator must follow them; the whitespace after the separator
  is taken greedily, and given back by one code point when nothing else is left for
  \<^verbatim>\<open>(.+)\<close>.
\<close>

definition match_numbered :: "ustr \<Rightarrow> ustr option" where
  "match_numbered line =
     (if takeWhile isdecimal line = [] then None
      else
        (case dropWhile isdecimal line of
           [] \<Rightarrow> None
         | sep # rest \<Rightarrow>
             if sep = 0x2E \<or> sep = 0x29 \<or> sep = 0x3A then
               (if rest = [] then None
                else if dropWhile isspace rest \<noteq> [] then Some (dropWhile isspace rest)
                else Some [last rest])
             else None))"

fun parse_lines :: "ustr list \<Rightarrow> ustr list \<Rightarrow> ustr list" where
  "parse_lines [] translations = translations"
| "parse_lines (line # lines) translations =
     (let line = strip line
      in if line = [] then parse_lines lines translations
         else
           (case match_numbered line of
              Some group1 \<Rightarrow> parse_lines lines (translations @ [group1])
            | None \<Rightarrow> parse_lines lines (translations @ [line])))"

function pad_loop :: "ustr list \<Rightarrow> ustr list \<Rightarrow> nat \<Rightarrow> ustr list" where
  "pad_loop translations preprocessed n =
     (if length translations < n
      then pad_loop (translations @ [preprocessed ! length translations]) preprocessed n
      else translations)"
  by pat_completeness auto
termination
  by (relation "measure (\<lambda>(translations, preprocessed, n). n - length translations)") auto

declare pad_loop.simps [simp del]

fun numbered_lines :: "nat \<Rightarrow> ustr list \<Rightarrow> ustr" where
  "numbered_lines idx [] = []"
| "numbered_lines idx (t # ts) =
     str_of_int (int idx) @ ustr ''. '' @ t @ [0xA] @ numbered_lines (Suc idx) ts"

definition batch_prompt :: "pipeline \<Rightarrow> bool \<Rightarrow> ustr list \<Rightarrow> ustr" where
  "batch_prompt s use_context preprocessed =
     (let context = (if use_context \<and> context_lines s > 0
                     then build_context_string s @ [0xA, 0xA] else [])
      in context @ ustr ''Translate each line below:'' @ [0xA, 0xA] @
         numbered_lines 1 preprocessed @
         [0xA] @ ustr ''Provide translations in the same numbered format, one per line.'')"

text \<open>
  From the reply to the translations of a batch of \<open>n\<close> texts: the lines are parsed, the
  list is padded from the preprocessed texts and cut to \<open>n\<close>.
\<close>

definition recover_translations :: "nat \<Rightarrow> ustr list \<Rightarrow> ustr \<Rightarrow> ustr list" where
  "recover_translations n preprocessed result =
     (let translations = parse_lines (split_lines (strip result)) [];
          translations = pad_loop translations preprocessed n
      in take n translations)"

text \<open>
  The scan for the first translation that fails the validity check, which the warning
  line shows with its number in the batch.
\<close>

fun first_japanese :: "nat \<Rightarrow> ustr list \<Rightarrow> line option" where
  "first_japanese idx [] = None"
| "first_japanese idx (translation # rest) =
     (if contains_japanese translation then Some (WarnBatch (idx + 1) (take 50 translation))
      else first_japanese (Suc idx) rest)"

function translate_batch ::
  "runtime \<Rightarrow> ustr list \<Rightarrow> bool \<Rightarrow> int \<Rightarrow> pipeline \<Rightarrow> (exc + ustr list) \<times> pipeline" where
  "translate_batch rt texts use_context retry_count s =
     (if texts = [] then (Inr [], s)
      else
        (let preprocessed = map (preprocess_text s) texts;
             batch_text = batch_prompt s use_context preprocessed
         in case call_llm rt batch_text [] 0 s of
              (Inl x, s1) \<Rightarrow> (Inl x, s1)
            | (Inr None, s1) \<Rightarrow> (Inr preprocessed, s1)
            | (Inr (Some result), s1) \<Rightarrow>
                if result = [] then (Inr preprocessed, s1)
                else
                  (let translations = recover_translations (length texts) preprocessed result
                   in if retry_on s1 \<and> retry_count < max_retries s1 then
                        (case first_japanese 0 translations of
                           None \<Rightarrow> (Inr translations, s1)
                         | Some warning \<Rightarrow>
                             if \<not> prints rt [warning,
                                                RetryBatch (retry_count + 1) (max_retries s1)]
                             then (Inl UnicodeEncodeError, s1)
                             else
                               (case sleep rt (retry_pause s1) s1 of
                                  (Inl x, s2) \<Rightarrow> (Inl x, s2)
                                | (Inr u, s2) \<Rightarrow>
                                    if frames rt = 0 then (Inl RecursionError, s2)
                                    else translate_batch (rt\<lparr>frames := frames rt - 1\<rparr>)
                                           texts use_context (retry_count + 1) s2))
                      else (Inr translations, s1))))"
  by pat_completeness auto
termination
  by (relation "measure (\<lambda>(rt, texts, use_context, retry_count, s). frames rt)") auto

declare translate_batch.simps [simp del]

section \<open>Record-set translation\<close>

text \<open>\<^verbatim>\<open>xs[start:stop]\<close>, with Python's reading of negative and oversized bounds.\<close>

definition py_slice :: "'a list \<Rightarrow> int \<Rightarrow> int \<Rightarrow> 'a list" where
  "py_slice xs start stop =
     (let n = int (length xs);
          a = (if start < 0 then max (start + n) 0 else min start n);
          b = (if stop < 0 then max (stop + n) 0 else min stop n)
      in take (nat (b - a)) (drop (nat a) xs))"

text \<open>
  An assignment \<^verbatim>\<open>obj['enName'] = t\<close> or \<^verbatim>\<open>obj['enText'] = t\<close>. The slot of a
  collected item is always inside the record set it was collected from.
\<close>

fun write_slot :: "slot \<Rightarrow> ustr \<Rightarrow> block list \<Rightarrow> block list" where
  "write_slot (NameSlot i) t data = data[i := (data ! i)\<lparr>enName := t\<rparr>]"
| "write_slot (TextSlot i) t data = data[i := (data ! i)\<lparr>enText := t\<rparr>]"
| "write_slot (ChoiceSlot i j) t data =
     data[i := (data ! i)\<lparr>choices := (choices (data ! i))
                [j := (choices (data ! i) ! j)\<lparr>c_enText := t\<rparr>]\<rparr>]"

definition assign :: "slot \<Rightarrow> ustr \<Rightarrow> block list \<times> pipeline \<Rightarrow> block list \<times> pipeline" where
  "assign sl t ds =
     (case ds of (data, s) \<Rightarrow> (write_slot sl t data, s\<lparr>events := events s @ [Write sl t]\<rparr>))"

fun collect_choices :: "nat \<Rightarrow> nat \<Rightarrow> choice list \<Rightarrow> item list \<Rightarrow> item list" where
  "collect_choices idx j [] choice_items = choice_items"
| "collect_choices idx j (choice # rest) choice_items =
     collect_choices idx (Suc j) rest
       (if c_enText choice = [] \<and> c_jpText choice \<noteq> []
        then choice_items @ [\<lparr>it_slot = ChoiceSlot idx j, it_text = c_jpText choice, it_idx = idx\<rparr>]
        else choice_items)"

fun collect_items ::
  "nat \<Rightarrow> block list \<Rightarrow> item list \<times> item list \<times> item list \<Rightarrow> item list \<times> item list \<times> item list" where
  "collect_items idx [] acc = acc"
| "collect_items idx (block # blocks) (name_items, text_items, choice_items) =
     (let jp_name = jpName block; jp_text = jpText block;
          en_name = enName block; en_text = enText block;
          name_items = (if en_name = [] \<and> jp_name \<noteq> [] \<and> strip jp_name \<noteq> []
                        then name_items @ [\<lparr>it_slot = NameSlot idx, it_text = jp_name, it_idx = idx\<rparr>]
                        else name_items);
          text_items = (if en_text = [] \<and> jp_text \<noteq> []
                        then text_items @ [\<lparr>it_slot = TextSlot idx, it_text = jp_text, it_idx = idx\<rparr>]
                        else text_items);
          choice_items = (if choices block \<noteq> []
                          then collect_choices idx 0 (choices block) choice_items
                          else choice_items)
      in collect_items (Suc idx) blocks (name_items, text_items, choice_items))"

definition all_items :: "block list \<Rightarrow> item list" where
  "all_items blocks =
     (case collect_items 0 blocks ([], [], []) of
        (name_items, text_items, choice_items) \<Rightarrow> name_items @ text_items @ choice_items)"

text \<open>The loop over \<^verbatim>\<open>zip(batch_items, translations)\<close> of the first pass.\<close>

fun assign_loop ::
  "(item \<times> ustr) list \<Rightarrow> block list \<times> pipeline \<Rightarrow> (item \<times> ustr) list \<Rightarrow> int \<Rightarrow>
   (block list \<times> pipeline) \<times> (item \<times> ustr) list \<times> int" where
  "assign_loop [] ds failed_items translated_count = (ds, failed_items, translated_count)"
| "assign_loop ((item, translation) # rest) ds failed_items translated_count =
     assign_loop rest (assign (it_slot item) translation ds)
       (if contains_japanese translation then failed_items @ [(item, translation)]
        else failed_items)
       (translated_count + 1)"

text \<open>
  The body of the first-pass loop for one batch: the batch is translated, then every
  translation is assigned to its slot.
\<close>

definition first_pass_batch ::
  "runtime \<Rightarrow> item list \<Rightarrow> block list \<times> pipeline \<Rightarrow> (item \<times> ustr) list \<Rightarrow> int \<Rightarrow>
   (exc + (item \<times> ustr) list \<times> int) \<times> block list \<times> pipeline" where
  "first_pass_batch rt batch_items ds failed_items translated_count =
     (let batch_texts = map it_text batch_items
      in case translate_batch rt batch_texts False 0 (snd ds) of
           (Inl e, s1) \<Rightarrow> (Inl e, fst ds, s1)
         | (Inr translations, s1) \<Rightarrow>
             (case assign_loop (zip batch_items translations) (fst ds, s1)
                     failed_items translated_count of
                (ds2, failed_items, translated_count) \<Rightarrow>
                  (Inr (failed_items, translated_count), ds2)))"

text \<open>The loop \<^verbatim>\<open>for batch_num in range(num_batches)\<close>; an exception ends it.\<close>

fun batch_loop ::
  "runtime \<Rightarrow> item list \<Rightarrow> int \<Rightarrow> rat \<Rightarrow> int \<Rightarrow> int list \<Rightarrow> block list \<times> pipeline \<Rightarrow>
   (item \<times> ustr) list \<Rightarrow> int \<Rightarrow> (exc + (item \<times> ustr) list \<times> int) \<times> block list \<times> pipeline" where
  "batch_loop rt items bsize bdelay num_batches [] ds failed_items translated_count =
     (Inr (failed_items, translated_count), ds)"
| "batch_loop rt items bsize bdelay num_batches (batch_num # rest) ds failed_items translated_count =
     (let start_idx = batch_num * bsize;
          end_idx = min (start_idx + bsize) (int (length items));
          batch_items = py_slice items start_idx end_idx
      in case first_pass_batch rt batch_items ds failed_items translated_count of
           (Inl e, ds1) \<Rightarrow> (Inl e, ds1)
         | (Inr (failed_items, translated_count), ds2) \<Rightarrow>
             if bdelay > 0 \<and> batch_num < num_batches - 1 then
               (case sleep rt bdelay (snd ds2) of
                  (Inl e, s3) \<Rightarrow> (Inl e, fst ds2, s3)
                | (Inr u, s3) \<Rightarrow>
                    batch_loop rt items bsize bdelay num_batches rest (fst ds2, s3)
                      failed_items translated_count)
             else batch_loop rt items bsize bdelay num_batches rest ds2
                    failed_items translated_count)"

text \<open>
  The item loop of the second pass. An accepted translation is assigned first and
  announced after; an accepted choice is not announced. A \<^verbatim>\<open>print\<close> that raises leaves
  the loop and the pass.
\<close>

fun fix_loop ::
  "runtime \<Rightarrow> ((item \<times> ustr) \<times> ustr) list \<Rightarrow> block list \<times> pipeline \<Rightarrow> int \<Rightarrow>
   (exc + int) \<times> block list \<times> pipeline" where
  "fix_loop rt [] ds retranslated_count = (Inr retranslated_count, ds)"
| "fix_loop rt (((item, old_translation), new_translation) # rest) ds retranslated_count =
     (if new_translation = [] then
        (if \<not> console rt (KeepOriginal (it_idx item)) then (Inl UnicodeEncodeError, ds)
         else fix_loop rt rest ds retranslated_count)
      else if \<not> contains_japanese new_translation then
        (let ds1 = assign (it_slot item) new_translation ds
         in if \<not> (case it_slot item of
                       NameSlot i \<Rightarrow> console rt (NameFixed (it_idx item) (take 40 new_translation))
                     | TextSlot i \<Rightarrow> console rt (TextFixed (it_idx item) (take 60 new_translation))
                     | ChoiceSlot i j \<Rightarrow> True)
            then (Inl UnicodeEncodeError, ds1)
            else fix_loop rt rest ds1 (retranslated_count + 1))
      else
        (if \<not> console rt (StillJapanese (it_idx item)) then (Inl UnicodeEncodeError, ds)
         else fix_loop rt rest ds retranslated_count))"

text \<open>
  The batch loop of the second pass over the start positions \<^verbatim>\<open>range(0, n, batch_size)\<close>;
  the flag of the result is \<^verbatim>\<open>model_not_loaded\<close>. An exception of
  \<^verbatim>\<open>translate_batch\<close> is caught and ends the loop, and so does a reply whose
  translations are all empty. The prints of the loop stand outside the \<^verbatim>\<open>try\<close>: one
  that raises leaves the pass.
\<close>

fun second_pass_loop ::
  "runtime \<Rightarrow> ustr \<Rightarrow> (item \<times> ustr) list \<Rightarrow> int \<Rightarrow> int list \<Rightarrow> block list \<times> pipeline \<Rightarrow> int \<Rightarrow>
   (exc + int \<times> bool) \<times> block list \<times> pipeline" where
  "second_pass_loop rt second_model failed_items bsize [] ds retranslated_count =
     (Inr (retranslated_count, False), ds)"
| "second_pass_loop rt second_model failed_items bsize (i # rest) ds retranslated_count =
     (let batch = py_slice failed_items i (i + bsize);
          batch_texts = map (\<lambda>it. it_text (fst it)) batch
      in if \<not> console rt (PassBatch (i + 1) (min (i + bsize) (int (length failed_items))))
         then (Inl UnicodeEncodeError, ds)
         else
           (case translate_batch rt batch_texts False 0 (snd ds) of
              (Inl x, s1) \<Rightarrow>
                if \<not> prints rt [PassFailed x, MayNotBeLoaded second_model]
                then (Inl UnicodeEncodeError, fst ds, s1)
                else (Inr (retranslated_count, True), fst ds, s1)
            | (Inr translations, s1) \<Rightarrow>
                if translations = [] \<or> list_all (\<lambda>t. t = []) translations then
                  (if \<not> prints rt [EmptyResults, NotLoaded second_model]
                   then (Inl UnicodeEncodeError, fst ds, s1)
                   else (Inr (retranslated_count, True), fst ds, s1))
                else
                  (case fix_loop rt (zip batch translations) (fst ds, s1) retranslated_count of
                     (Inl x, ds2) \<Rightarrow> (Inl x, ds2)
                   | (Inr retranslated_count, ds2) \<Rightarrow>
                       second_pass_loop rt second_model failed_items bsize rest ds2
                         retranslated_count)))"

text \<open>\<^verbatim>\<open>range(0, n, step)\<close> for a step other than zero.\<close>

definition range_from_zero :: "int \<Rightarrow> int \<Rightarrow> int list" where
  "range_from_zero n step =
     (if step > 0 then map (\<lambda>k. int k * step) [0..<nat ((n + step - 1) div step)] else [])"

definition set_model :: "ustr \<Rightarrow> rat \<Rightarrow> pipeline \<Rightarrow> pipeline" where
  "set_model m t s = s\<lparr>llm_config := (llm_config s)\<lparr>model := m, temperature := t\<rparr>\<rparr>"

text \<open>
  \<^verbatim>\<open>_second_pass_translation\<close>. The alternate model and temperature are set, the
  batches are translated, the primary model and temperature are set again. The
  restoring assignments are plain statements after the loop, with no \<^verbatim>\<open>finally\<close>: an
  exception that leaves the loop (a \<^verbatim>\<open>print\<close> that raises, \<^verbatim>\<open>range\<close> with a step of
  zero) leaves the method with the alternate model in place.
\<close>

definition second_pass_translation ::
  "runtime \<Rightarrow> (item \<times> ustr) list \<Rightarrow> block list \<times> pipeline \<Rightarrow> (exc + int) \<times> block list \<times> pipeline" where
  "second_pass_translation rt failed_items ds =
     (if failed_items = [] then (Inr 0, ds)
      else if \<not> prints rt [PassBanner, PassFound (length failed_items)]
      then (Inl UnicodeEncodeError, ds)
      else
        (let s = snd ds;
             original_model = model (llm_config s);
             original_temp = temperature (llm_config s);
             second_model = (case second_pass_model (trans_config s) of
                               None \<Rightarrow> original_model | Some m \<Rightarrow> m);
             second_temp = (case second_pass_temperature (trans_config s) of
                              None \<Rightarrow> 3 / 10 | Some t \<Rightarrow> t)
         in if second_model = original_model then
              (if \<not> prints rt [SameModel, SameModelTip, SameModelSkip]
               then (Inl UnicodeEncodeError, ds)
               else (Inr 0, ds))
            else
              (let s1 = set_model second_model second_temp s;
                   bsize = (case batch_size (trans_config s1) of None \<Rightarrow> 25 | Some b \<Rightarrow> b)
               in if \<not> prints rt [UsingModel second_model second_temp, LoadNote]
                  then (Inl UnicodeEncodeError, fst ds, s1)
                  else if bsize = 0 then (Inl ValueError, fst ds, s1)
                  else
                    (case second_pass_loop rt second_model failed_items bsize
                            (range_from_zero (int (length failed_items)) bsize) (fst ds, s1) 0 of
                       (Inl x, ds2) \<Rightarrow> (Inl x, ds2)
                     | (Inr (retranslated_count, model_not_loaded), data2, s2) \<Rightarrow>
                         (let s3 = set_model original_model original_temp s2
                          in if \<not> prints rt
                                    (if model_not_loaded
                                     then [Incomplete, HowTo, HowToLoad second_model,
                                           HowToSet, HowToDisable]
                                     else [PassComplete retranslated_count
                                             (length failed_items)])
                             then (Inl UnicodeEncodeError, data2, s3)
                             else (Inr retranslated_count, data2, s3))))))"

definition translate_json_batched ::
  "runtime \<Rightarrow> block list \<times> pipeline \<Rightarrow> (exc + int) \<times> block list \<times> pipeline" where
  "translate_json_batched rt ds =
     (let s = snd ds;
          bsize = (case batch_size (trans_config s) of None \<Rightarrow> 25 | Some b \<Rightarrow> b);
          items = all_items (fst ds)
      in if items = [] then (Inr 0, ds)
         else if bsize = 0 then (Inl ZeroDivisionError, ds)
         else
           (let num_batches = (int (length items) + bsize - 1) div bsize;
                bdelay = (case batch_delay (trans_config s) of None \<Rightarrow> 0 | Some d \<Rightarrow> d)
            in case batch_loop rt items bsize bdelay num_batches [0..num_batches - 1] ds [] 0 of
                 (Inl e, ds1) \<Rightarrow> (Inl e, ds1)
               | (Inr (failed_items, translated_count), ds1) \<Rightarrow>
                   if failed_items \<noteq> [] \<and>
                      (case enable_two_pass (trans_config (snd ds1)) of
                         None \<Rightarrow> False | Some b \<Rightarrow> b)
                   then
                     (case second_pass_translation rt failed_items ds1 of
                        (Inl e, ds2) \<Rightarrow> (Inl e, ds2)
                      | (Inr fixed, ds2) \<Rightarrow> (Inr (translated_count + fixed), ds2))
                   else (Inr translated_count, ds1)))"

text \<open>The choice loop of the sequential translator.\<close>

fun seq_choices ::
  "runtime \<Rightarrow> nat \<Rightarrow> nat \<Rightarrow> choice list \<Rightarrow> block list \<times> pipeline \<Rightarrow> int \<Rightarrow>
   (exc + int) \<times> block list \<times> pipeline" where
  "seq_choices rt idx j [] ds translated_count = (Inr translated_count, ds)"
| "seq_choices rt idx j (choice # rest) ds translated_count =
     (if c_enText choice = [] \<and> c_jpText choice \<noteq> [] then
        (case translate_text rt (c_jpText choice) False True 0 (snd ds) of
           (Inl e, s1) \<Rightarrow> (Inl e, fst ds, s1)
         | (Inr en_choice, s1) \<Rightarrow>
             (case assign (ChoiceSlot idx j) en_choice (fst ds, s1) of
                ds2 \<Rightarrow>
                  (case sleep rt (1 / 2) (snd ds2) of
                     (Inl e, s3) \<Rightarrow> (Inl e, fst ds2, s3)
                   | (Inr u, s3) \<Rightarrow>
                       seq_choices rt idx (Suc j) rest (fst ds2, s3) (translated_count + 1))))
      else seq_choices rt idx (Suc j) rest ds translated_count)"

text \<open>
  One field of a block in the sequential translator: translated when the target is
  empty and the source is not, followed by the half-second sleep. It returns the
  target text the rest of the iteration sees.
\<close>

definition seq_field ::
  "runtime \<Rightarrow> slot \<Rightarrow> bool \<Rightarrow> ustr \<Rightarrow> ustr \<Rightarrow> block list \<times> pipeline \<Rightarrow> int \<Rightarrow>
   (exc + ustr \<times> int) \<times> block list \<times> pipeline" where
  "seq_field rt sl is_name jp en ds translated_count =
     (if en = [] \<and> jp \<noteq> [] then
        (case translate_text rt jp is_name (\<not> is_name) 0 (snd ds) of
           (Inl e, s1) \<Rightarrow> (Inl e, fst ds, s1)
         | (Inr en', s1) \<Rightarrow>
             (case assign sl en' (fst ds, s1) of
                ds2 \<Rightarrow>
                  (case sleep rt (1 / 2) (snd ds2) of
                     (Inl e, s3) \<Rightarrow> (Inl e, fst ds2, s3)
                   | (Inr u, s3) \<Rightarrow> (Inr (en', translated_count + 1), fst ds2, s3))))
      else (Inr (en, translated_count), ds))"

fun seq_blocks ::
  "runtime \<Rightarrow> nat \<Rightarrow> block list \<Rightarrow> block list \<times> pipeline \<Rightarrow> int \<Rightarrow>
   (exc + int) \<times> block list \<times> pipeline" where
  "seq_blocks rt idx [] ds translated_count = (Inr translated_count, ds)"
| "seq_blocks rt idx (block # blocks) ds translated_count =
     (let jp_name = jpName block; jp_text = jpText block
      in case seq_field rt (NameSlot idx) True jp_name (enName block) ds translated_count of
           (Inl e, ds1) \<Rightarrow> (Inl e, ds1)
         | (Inr (en_name, translated_count), ds1) \<Rightarrow>
             (case seq_field rt (TextSlot idx) False jp_text (enText block) ds1 translated_count of
                (Inl e, ds2) \<Rightarrow> (Inl e, ds2)
              | (Inr (en_text, translated_count), ds2) \<Rightarrow>
                  (case seq_choices rt idx 0 (choices block)
                          (fst ds2, add_to_context jp_name jp_text en_name en_text (snd ds2))
                          translated_count of
                     (Inl e, ds3) \<Rightarrow> (Inl e, ds3)
                   | (Inr translated_count, ds3) \<Rightarrow>
                       seq_blocks rt (Suc idx) blocks ds3 translated_count)))"

definition translate_json_sequential ::
  "runtime \<Rightarrow> block list \<times> pipeline \<Rightarrow> (exc + int) \<times> block list \<times> pipeline" where
  "translate_json_sequential rt ds = seq_blocks rt 0 (fst ds) ds 0"

text \<open>The cleanup pass: both tests of a block read the fields as they were on entry.\<close>

fun clean_loop ::
  "nat \<Rightarrow> block list \<Rightarrow> block list \<times> pipeline \<Rightarrow> nat \<times> nat \<Rightarrow>
   (block list \<times> pipeline) \<times> nat \<times> nat" where
  "clean_loop idx [] ds counts = (ds, counts)"
| "clean_loop idx (block # blocks) ds (cleaned_names, cleaned_texts) =
     (let en_name = enName block; jp_text = jpText block; en_text = enText block;
          name_hit = (lower en_name = ustr ''monologue'');
          text_hit = ((jp_text = [] \<or> strip jp_text = []) \<and> lower en_text = ustr ''monologue'');
          ds1 = (if name_hit then assign (NameSlot idx) [] ds else ds);
          ds2 = (if text_hit then assign (TextSlot idx) [] ds1 else ds1)
      in clean_loop (Suc idx) blocks ds2
           (if name_hit then Suc cleaned_names else cleaned_names,
            if text_hit then Suc cleaned_texts else cleaned_texts))"

definition clean_monologue_names :: "block list \<times> pipeline \<Rightarrow> nat \<times> block list \<times> pipeline" where
  "clean_monologue_names ds =
     (case clean_loop 0 (fst ds) ds (0, 0) of
        (ds1, cleaned_names, cleaned_texts) \<Rightarrow> (cleaned_names + cleaned_texts, ds1))"

text \<open>
  \<^verbatim>\<open>translate_json_file\<close> between the load and the write of the record set. An
  exception of the translation leaves the method before the cleanup.
\<close>

definition translate_json_file ::
  "runtime \<Rightarrow> block list \<times> pipeline \<Rightarrow> (exc + int) \<times> block list \<times> pipeline" where
  "translate_json_file rt ds =
     (let ds0 = (fst ds, reset_context (snd ds));
          use_batch = (case use_batch_translation (trans_config (snd ds0)) of
                         None \<Rightarrow> True | Some b \<Rightarrow> b)
      in case (if use_batch then translate_json_batched rt ds0
               else translate_json_sequential rt ds0) of
           (Inl e, ds1) \<Rightarrow> (Inl e, ds1)
         | (Inr translated_count, ds1) \<Rightarrow>
             (case clean_monologue_names ds1 of
                (cleaned, ds2) \<Rightarrow> (Inr translated_count, ds2)))"

section \<open>Sequences of context appends\<close>

text \<open>A sequence of appends to the context window, one entry after the other.\<close>

fun add_all :: "context_entry list \<Rightarrow> pipeline \<Rightarrow> pipeline" where
  "add_all [] s = s"
| "add_all (e # es) s =
     add_all es (add_to_context (ctx_jpName e) (ctx_jpText e) (ctx_enName e) (ctx_enText e) s)"

section \<open>Traces, characterisations and sample inputs\<close>

text \<open>
  The trace of a remote call that fails \<open>m\<close> times before its last post: each failed
  post is followed by the retry sleep.
\<close>

fun attempts :: "nat \<Rightarrow> request \<Rightarrow> rat \<Rightarrow> event list" where
  "attempts 0 req d = [Post req]"
| "attempts (Suc m) req d = Post req # Sleep d # attempts m req d"

text \<open>The k-th post of a request raises inside the \<^verbatim>\<open>try\<close>.\<close>

definition fails :: "runtime \<Rightarrow> nat \<Rightarrow> request \<Rightarrow> bool" where
  "fails rt k req = (case remote rt k req of Failure e \<Rightarrow> True | Content c \<Rightarrow> False)"

text \<open>A pipeline as a configuration file would give it, for the concrete runs below.\<close>

definition demo :: pipeline where
  "demo =
     \<lparr>llm_config =
        \<lparr>api_url = ustr ''http://localhost:1234/v1/chat/completions'', api_key = ustr ''key'',
         model = ustr ''primary'', system_prompt = ustr ''Translate.'', temperature = 7 / 10,
         max_tokens = 512, min_p = None, top_p = None, top_k = None\<rparr>,
      trans_config =
        \<lparr>retry_attempts = Some 2, retry_delay = Some 1, retry_on_japanese = None,
         use_batch_translation = None, batch_size = Some 2, batch_delay = None,
         enable_two_pass = Some True, second_pass_model = Some (ustr ''strong''),
         second_pass_temperature = None\<rparr>,
      dictionary = [], context_lines = 2, current_context = [], events = []\<rparr>"

text \<open>
  A machine for the concrete runs: its console prints every line, the recursion limit
  leaves room for 990 nested retries, \<^verbatim>\<open>time.sleep\<close> takes what a signed 64-bit
  count of nanoseconds holds, and the service behind the endpoint is down.
\<close>

definition offline :: runtime where
  "offline = \<lparr>remote = (\<lambda>k r. Failure []), console = (\<lambda>l. True), frames = 990,
               sleep_max = 9223372036\<rparr>"

text \<open>The sample machine with a service that answers every post with the same content.\<close>

definition answering :: "ustr \<Rightarrow> runtime" where
  "answering c = offline\<lparr>remote := (\<lambda>k r. Content c)\<rparr>"

text \<open>
  Two consoles. What decides whether a line is printed is the text the line shows from
  the values of the run; the rest of every line is ASCII but for the marks of the
  escalation pass. A console in UTF-8 prints every code point but a lone surrogate. A
  console in ASCII (a redirected output under the C locale) prints no code point from
  128 on, so it prints no mark of the escalation pass either.
\<close>

definition surrogate :: "nat \<Rightarrow> bool" where
  "surrogate code \<longleftrightarrow> 0xD800 \<le> code \<and> code \<le> 0xDFFF"

fun shown :: "line \<Rightarrow> ustr" where
  "shown (ErrorCalling e) = e"
| "shown (WarnText t) = t"
| "shown (WarnBatch i t) = t"
| "shown (UsingModel m t) = m"
| "shown (MayNotBeLoaded m) = m"
| "shown (NotLoaded m) = m"
| "shown (NameFixed i t) = t"
| "shown (TextFixed i t) = t"
| "shown (HowToLoad m) = m"
| "shown l = []"

text \<open>The lines of the escalation pass that carry a check mark, a cross or a warning sign.\<close>

fun marked :: "line \<Rightarrow> bool" where
  "marked (PassFailed x) = True"
| "marked (MayNotBeLoaded m) = True"
| "marked EmptyResults = True"
| "marked (NotLoaded m) = True"
| "marked (KeepOriginal i) = True"
| "marked (NameFixed i t) = True"
| "marked (TextFixed i t) = True"
| "marked (StillJapanese i) = True"
| "marked Incomplete = True"
| "marked l = False"

definition utf8_console :: "line \<Rightarrow> bool" where
  "utf8_console l = (\<not> list_ex surrogate (shown l))"

definition ascii_console :: "line \<Rightarrow> bool" where
  "ascii_console l = (\<not> marked l \<and> list_all (\<lambda>code. code < 128) (shown l))"

text \<open>A trace without assignments to the record set.\<close>

definition no_write :: "event list \<Rightarrow> bool" where
  "no_write es = list_all (\<lambda>e. case e of Write sl t \<Rightarrow> False | _ \<Rightarrow> True) es"

text \<open>A step that changes nothing of the pipeline but appends to the trace.\<close>

definition extends :: "pipeline \<Rightarrow> pipeline \<Rightarrow> event list \<Rightarrow> bool" where
  "extends s s' es \<longleftrightarrow> s' = s\<lparr>events := events s @ es\<rparr>"

text \<open>
  The translations a reply carries, in the words of the specification: the reply is
  cut at line feeds, every line is trimmed, empty lines are passed over, and a line
  gives what follows its number prefix when it has one and itself otherwise.
\<close>

definition spec_recovered :: "ustr \<Rightarrow> ustr list" where
  "spec_recovered reply =
     map (\<lambda>l. case match_numbered l of Some rest \<Rightarrow> rest | None \<Rightarrow> l)
       (filter (\<lambda>l. l \<noteq> []) (map strip (split_lines (strip reply))))"

text \<open>The reply of the reassembly example, and a reply that numbers two lines only.\<close>

definition reply_three :: ustr where
  "reply_three = ustr ''1. Hello'' @ [0xA] @ ustr ''2. World'' @ [0xA] @ ustr ''3. Foo''"

definition reply_two :: ustr where
  "reply_two = ustr ''1. Hello'' @ [0xA] @ ustr ''2. World''"

text \<open>A reply whose only translation is the Hiragana letter U+3042.\<close>

definition reply_japanese :: ustr where
  "reply_japanese = ustr ''1. '' @ [0x3042]"

text \<open>The sample pipeline with the validation retry switched off.\<close>

definition demo_no_retry :: pipeline where
  "demo_no_retry = demo\<lparr>trans_config := (trans_config demo)\<lparr>retry_on_japanese := Some False\<rparr>\<rparr>"

text \<open>The assignments of a batch, one for each pair of an item and its translation.\<close>

definition writes_of :: "(item \<times> ustr) list \<Rightarrow> event list" where
  "writes_of zs = map (\<lambda>z. Write (it_slot (fst z)) (snd z)) zs"

text \<open>A reply to a single unit.\<close>

definition reply_hello :: ustr where
  "reply_hello = ustr ''1. Hello''"

text \<open>
  A reply to two units whose first translation is valid and whose second is the
  Hiragana letter, and a later reply that is valid throughout.
\<close>

definition reply_mixed :: ustr where
  "reply_mixed = ustr ''1. Hello'' @ [0xA] @ ustr ''2. '' @ [0x3042]"

definition reply_fresh :: ustr where
  "reply_fresh = ustr ''1. Hi'' @ [0xA] @ ustr ''2. World''"

text \<open>The sample machine with a service whose first answer is the mixed reply.\<close>

definition second_try :: runtime where
  "second_try =
     offline\<lparr>remote := (\<lambda>k r. if k = 0 then Content reply_mixed else Content reply_fresh)\<rparr>"

text \<open>
  The sample machine with a service that answers in Japanese and a console in ASCII,
  which cannot print the warning of the batch translator: the warning shows the
  offending translation.
\<close>

definition japanese_on_ascii :: runtime where
  "japanese_on_ascii = (answering reply_japanese)\<lparr>console := ascii_console\<rparr>"

definition demo_block :: block where
  "demo_block = \<lparr>blockIdx = 7, jpName = ustr ''x'', jpText = [], enName = [], enText = [],
                  choices = []\<rparr>"

definition demo_item :: item where
  "demo_item = \<lparr>it_slot = NameSlot 0, it_text = ustr ''x'', it_idx = 0\<rparr>"

text \<open>
  The units to collect, in the words of the specification and with the tests the code
  makes: by kind, each kind in the order of the blocks (and of the choices within a
  block).
\<close>

definition spec_name_units :: "nat \<Rightarrow> block list \<Rightarrow> item list" where
  "spec_name_units idx blocks =
     map (\<lambda>(i, b). \<lparr>it_slot = NameSlot i, it_text = jpName b, it_idx = i\<rparr>)
       (filter (\<lambda>(i, b). enName b = [] \<and> jpName b \<noteq> [] \<and> strip (jpName b) \<noteq> [])
          (enumerate idx blocks))"

definition spec_text_units :: "nat \<Rightarrow> block list \<Rightarrow> item list" where
  "spec_text_units idx blocks =
     map (\<lambda>(i, b). \<lparr>it_slot = TextSlot i, it_text = jpText b, it_idx = i\<rparr>)
       (filter (\<lambda>(i, b). enText b = [] \<and> jpText b \<noteq> []) (enumerate idx blocks))"

definition spec_block_choice_units :: "nat \<Rightarrow> nat \<Rightarrow> choice list \<Rightarrow> item list" where
  "spec_block_choice_units i j cs =
     map (\<lambda>(j, c). \<lparr>it_slot = ChoiceSlot i j, it_text = c_jpText c, it_idx = i\<rparr>)
       (filter (\<lambda>(j, c). c_enText c = [] \<and> c_jpText c \<noteq> []) (enumerate j cs))"

definition spec_choice_units :: "nat \<Rightarrow> block list \<Rightarrow> item list" where
  "spec_choice_units idx blocks =
     concat (map (\<lambda>(i, b). spec_block_choice_units i 0 (choices b)) (enumerate idx blocks))"

text \<open>A block whose source text is one space and whose target text is empty.\<close>

definition blank_text_block :: block where
  "blank_text_block = \<lparr>blockIdx = 1, jpName = [], jpText = ustr '' '', enName = [], enText = [],
                        choices = []\<rparr>"

text \<open>
  A record set with every target field populated: wherever a source text is not empty,
  the target text is not empty either.
\<close>

definition populated :: "block list \<Rightarrow> bool" where
  "populated data =
     list_all (\<lambda>b. (jpName b \<noteq> [] \<longrightarrow> enName b \<noteq> []) \<and> (jpText b \<noteq> [] \<longrightarrow> enText b \<noteq> []) \<and>
                    list_all (\<lambda>c. c_jpText c \<noteq> [] \<longrightarrow> c_enText c \<noteq> []) (choices b)) data"

text \<open>What the cleanup pass makes of a block, and the record sets it has nothing to do on.\<close>

definition spec_clean_block :: "block \<Rightarrow> block" where
  "spec_clean_block b =
     b\<lparr>enName := (if lower (enName b) = ustr ''monologue'' then [] else enName b),
       enText := (if (jpText b = [] \<or> strip (jpText b) = []) \<and>
                     lower (enText b) = ustr ''monologue'' then [] else enText b)\<rparr>"

definition sentinel_free :: "block list \<Rightarrow> bool" where
  "sentinel_free data =
     list_all (\<lambda>b. lower (enName b) \<noteq> ustr ''monologue'' \<and>
                    \<not> ((jpText b = [] \<or> strip (jpText b) = []) \<and>
                       lower (enText b) = ustr ''monologue'')) data"

text \<open>A block with every target populated whose target name is the placeholder.\<close>

definition monologue_block :: block where
  "monologue_block = \<lparr>blockIdx = 3, jpName = ustr ''x'', jpText = ustr ''t'',
                       enName = ustr ''Monologue'', enText = ustr ''hello'', choices = []\<rparr>"

text \<open>A block with every target populated and no placeholder.\<close>

definition alice_block :: block where
  "alice_block = \<lparr>blockIdx = 5, jpName = [0x3042], jpText = [0x3044],
                   enName = ustr ''Alice'', enText = ustr ''Hi'',
                   choices = [\<lparr>c_jpText = [0x3046], c_enText = ustr ''Yes''\<rparr>]\<rparr>"

text \<open>
  The sample pipeline with a negative retry delay, with a retry delay beyond what the
  sample machine sleeps, and without the key \<open>retry_attempts\<close>.
\<close>

definition demo_negative_delay :: pipeline where
  "demo_negative_delay = demo\<lparr>trans_config := (trans_config demo)\<lparr>retry_delay := Some (- 1)\<rparr>\<rparr>"

definition demo_long_delay :: pipeline where
  "demo_long_delay = demo\<lparr>trans_config := (trans_config demo)\<lparr>retry_delay := Some 10000000000\<rparr>\<rparr>"

definition demo_no_attempts :: pipeline where
  "demo_no_attempts = demo\<lparr>trans_config := (trans_config demo)\<lparr>retry_attempts := None\<rparr>\<rparr>"

text \<open>
  The sample machine with no room for a nested call, and with a console in ASCII and
  a service whose failure carries a message in Japanese (the two Kanji of
  \<open>refused\<close>), as the connection errors of a localised system do.
\<close>

definition offline_deep :: runtime where
  "offline_deep = offline\<lparr>frames := 0\<rparr>"

definition refused_on_ascii :: runtime where
  "refused_on_ascii =
     offline\<lparr>remote := (\<lambda>k r. Failure [0x62D2, 0x5426]), console := ascii_console\<rparr>"

text \<open>The sample pipeline with a dictionary that pins the name Alice to itself.\<close>

definition demo_pinned :: pipeline where
  "demo_pinned = demo\<lparr>dictionary := [(ustr ''Alice'', ustr ''Alice'')]\<rparr>"

text \<open>
  A reply that ends in the first half of a surrogate pair, as a reply cut inside an
  escaped emoji does, and the sample machine with the UTF-8 console and a service
  that answers the first post in Japanese and every later post with that reply.
\<close>

definition reply_cut :: ustr where
  "reply_cut = ustr ''1. Aqua'' @ [0xD83D]"

definition cut_emoji :: runtime where
  "cut_emoji =
     offline\<lparr>remote := (\<lambda>k r. if k = 0 then Content reply_japanese else Content reply_cut),
              console := utf8_console\<rparr>"

text \<open>
  The sample machine with a service that answers the first post in Japanese and is
  down from then on, and with one that answers every later post with an empty
  content.
\<close>

definition goes_silent :: runtime where
  "goes_silent =
     offline\<lparr>remote := (\<lambda>k r. if k = 0 then Content reply_japanese else Content [])\<rparr>"

definition goes_down :: runtime where
  "goes_down =
     offline\<lparr>remote := (\<lambda>k r. if k = 0 then Content reply_japanese
                               else Failure (ustr ''timeout''))\<rparr>"

section \<open>The context window is a bounded FIFO\<close>

lemma ustr_simps [simp]: "ustr [] = []" "ustr (c # cs) = of_char c # ustr cs"
  by (simp_all add: ustr_def)

lemma add_to_context_lines [simp]:
  "context_lines (add_to_context a b c d s) = context_lines s"
  by (simp add: add_to_context_def Let_def)

lemma add_to_context_window:
  "current_context (add_to_context (ctx_jpName e) (ctx_jpText e) (ctx_enName e) (ctx_enText e) s) =
     (if context_lines s > 0 then
        (if int (length (current_context s)) + 1 > context_lines s
         then tl (current_context s @ [e]) else current_context s @ [e])
      else current_context s)"
  by (cases e) (simp add: add_to_context_def Let_def)

lemma add_all_window:
  "0 < context_lines s \<Longrightarrow> int (length (current_context s)) \<le> context_lines s \<Longrightarrow>
   current_context (add_all es s) =
     drop (length (current_context s @ es) - nat (context_lines s)) (current_context s @ es)"
proof (induction es arbitrary: s)
  case Nil
  then show ?case by simp
next
  case (Cons e es)
  let ?s' = "add_to_context (ctx_jpName e) (ctx_jpText e) (ctx_enName e) (ctx_enText e) s"
  show ?case
  proof (cases "int (length (current_context s)) + 1 > context_lines s")
    case True
    with Cons.prems have len: "length (current_context s) = nat (context_lines s)" by linarith
    have w: "current_context ?s' = tl (current_context s @ [e])"
      using True Cons.prems by (simp add: add_to_context_window)
    have l': "int (length (current_context ?s')) \<le> context_lines ?s'"
      using w len Cons.prems by simp
    have "current_context (add_all (e # es) s) = current_context (add_all es ?s')" by simp
    also have "\<dots> = drop (length (current_context ?s' @ es) - nat (context_lines s)) (current_context ?s' @ es)"
      using Cons.IH[of ?s'] l' Cons.prems by simp
    also have "\<dots> = drop (length (current_context s @ e # es) - nat (context_lines s)) (current_context s @ e # es)"
      using w len Cons.prems by (cases "current_context s") (simp_all add: drop_Cons')
    finally show ?thesis .
  next
    case False
    have w: "current_context ?s' = current_context s @ [e]"
      using False Cons.prems by (simp add: add_to_context_window)
    have l': "int (length (current_context ?s')) \<le> context_lines ?s'"
      using w False by simp
    have "current_context (add_all (e # es) s) = current_context (add_all es ?s')" by simp
    also have "\<dots> = drop (length (current_context ?s' @ es) - nat (context_lines s)) (current_context ?s' @ es)"
      using Cons.IH[of ?s'] l' Cons.prems by simp
    also have "\<dots> = drop (length (current_context s @ e # es) - nat (context_lines s)) (current_context s @ e # es)"
      using w by simp
    finally show ?thesis .
  qed
qed

lemma add_all_disabled:
  "\<not> 0 < context_lines s \<Longrightarrow> add_all es s = s"
  by (induction es arbitrary: s) (simp_all add: add_to_context_def)

text \<open>
  C7. Starting from the empty window, any sequence of appends leaves the window holding
  the last entries appended, as many as the configured capacity allows and in the order
  of their arrival: the oldest entries are the ones evicted, and the window never holds
  more entries than the capacity (a capacity of zero or less keeps it empty). With
  capacity 2, appending a, b, c leaves exactly [b, c].
\<close>

theorem context_fifo:
  "current_context (add_all es (reset_context s)) = drop (length es - nat (context_lines s)) es
   \<and> length (current_context (add_all es (reset_context s))) \<le> nat (context_lines s)
   \<and> current_context (add_all [a, b, c] (reset_context (s\<lparr>context_lines := 2\<rparr>))) = [b, c]"
proof -
  have main: "current_context (add_all es (reset_context t)) = drop (length es - nat (context_lines t)) es" for t es
  proof (cases "0 < context_lines t")
    case True
    then show ?thesis using add_all_window[of "reset_context t" es] by (simp add: reset_context_def)
  next
    case False
    then show ?thesis using add_all_disabled[of "reset_context t" es] by (simp add: reset_context_def)
  qed
  have ex: "current_context (add_all [a, b, c] (reset_context (s\<lparr>context_lines := 2\<rparr>))) = [b, c]"
    by (subst main) simp
  show ?thesis using main[of es s] ex by simp
qed

section \<open>The remote client: retries, and what escapes it\<close>

lemma posts_append [simp]: "posts (es @ fs) = posts es + posts fs"
  by (simp add: posts_def)

lemma posts_simps [simp]:
  "posts [] = 0" "posts (Post r # es) = Suc (posts es)"
  "posts (Sleep d # es) = posts es" "posts (Write sl t # es) = posts es"
  by (simp_all add: posts_def)

lemma build_request_events [simp]: "build_request (s\<lparr>events := es\<rparr>) tx ctx = build_request s tx ctx"
  by (simp add: build_request_def)

lemma fails_frames [simp]: "fails (rt\<lparr>frames := k\<rparr>) = fails rt"
  by (simp add: fails_def fun_eq_iff)

lemma call_llm_content:
  "remote rt (posts (events s)) (build_request s tx ctx) = Content c \<Longrightarrow>
   call_llm rt tx ctx rc s =
     (Inr (Some (strip c)), s\<lparr>events := events s @ [Post (build_request s tx ctx)]\<rparr>)"
  by (subst call_llm.simps) (simp add: Let_def)

lemma call_llm_exhausted:
  "remote rt (posts (events s)) (build_request s tx ctx) = Failure e \<Longrightarrow>
   console rt (ErrorCalling e) \<Longrightarrow> retry_attempts (trans_config s) = Some n \<Longrightarrow>
   \<not> rc < n \<Longrightarrow>
   call_llm rt tx ctx rc s = (Inr None, s\<lparr>events := events s @ [Post (build_request s tx ctx)]\<rparr>)"
  by (subst call_llm.simps) (simp add: Let_def)

lemma call_llm_retry:
  "remote rt (posts (events s)) (build_request s tx ctx) = Failure e \<Longrightarrow>
   console rt (ErrorCalling e) \<Longrightarrow> retry_attempts (trans_config s) = Some n \<Longrightarrow>
   rc < n \<Longrightarrow> console rt (Retrying (rc + 1) n) \<Longrightarrow>
   retry_delay (trans_config s) = Some d \<Longrightarrow> 0 \<le> d \<Longrightarrow> d \<le> sleep_max rt \<Longrightarrow>
   frames rt \<noteq> 0 \<Longrightarrow>
   call_llm rt tx ctx rc s =
     call_llm (rt\<lparr>frames := frames rt - 1\<rparr>) tx ctx (rc + 1)
       (s\<lparr>events := events s @ [Post (build_request s tx ctx), Sleep d]\<rparr>)"
  by (subst call_llm.simps) (simp add: Let_def sleep_def)

lemma call_llm_spec:
  assumes "retry_attempts (trans_config s) = Some n" "retry_delay (trans_config s) = Some d"
    "0 \<le> d" "d \<le> sleep_max rt" "k = nat (n - rc)" "k \<le> frames rt" "\<forall>l. console rt l"
  shows "\<exists>m c. m \<le> k \<and>
           (\<forall>i<m. fails rt (posts (events s) + i) (build_request s tx ctx)) \<and>
           snd (call_llm rt tx ctx rc s) =
             s\<lparr>events := events s @ attempts m (build_request s tx ctx) d\<rparr> \<and>
           (fst (call_llm rt tx ctx rc s) = Inr None \<and> m = k \<and>
              fails rt (posts (events s) + m) (build_request s tx ctx)
            \<or> fst (call_llm rt tx ctx rc s) = Inr (Some (strip c)) \<and>
              remote rt (posts (events s) + m) (build_request s tx ctx) = Content c)"
  using assms
proof (induction k arbitrary: rt rc s)
  case 0
  let ?req = "build_request s tx ctx"
  show ?case
  proof (cases "remote rt (posts (events s)) ?req")
    case (Content c)
    from call_llm_content[OF Content] Content show ?thesis
      by (intro exI[of _ 0] exI[of _ c]) simp
  next
    case (Failure e)
    from "0.prems" have nr: "\<not> rc < n" by simp
    from "0.prems" have con: "console rt (ErrorCalling e)" by simp
    from call_llm_exhausted[OF Failure con "0.prems"(1) nr] Failure show ?thesis
      by (intro exI[of _ 0] exI[of _ "[]"]) (simp add: fails_def)
  qed
next
  case (Suc k)
  let ?req = "build_request s tx ctx"
  let ?rt = "rt\<lparr>frames := frames rt - 1\<rparr>"
  let ?s2 = "s\<lparr>events := events s @ [Post ?req, Sleep d]\<rparr>"
  show ?case
  proof (cases "remote rt (posts (events s)) ?req")
    case (Content c)
    from call_llm_content[OF Content] Content show ?thesis
      by (intro exI[of _ 0] exI[of _ c]) simp
  next
    case (Failure e)
    from Suc.prems have lt: "rc < n" by linarith
    from Suc.prems have con: "console rt (ErrorCalling e)" "console rt (Retrying (rc + 1) n)"
      by simp_all
    from Suc.prems have fr: "frames rt \<noteq> 0" by simp
    have step: "call_llm rt tx ctx rc s = call_llm ?rt tx ctx (rc + 1) ?s2"
      by (rule call_llm_retry[OF Failure con(1) Suc.prems(1) lt con(2) Suc.prems(2)
            Suc.prems(3) Suc.prems(4) fr])
    have k: "k = nat (n - (rc + 1))" using Suc.prems by linarith
    have "\<exists>m c. m \<le> k \<and>
           (\<forall>i<m. fails ?rt (posts (events ?s2) + i) (build_request ?s2 tx ctx)) \<and>
           snd (call_llm ?rt tx ctx (rc + 1) ?s2) =
             ?s2\<lparr>events := events ?s2 @ attempts m (build_request ?s2 tx ctx) d\<rparr> \<and>
           (fst (call_llm ?rt tx ctx (rc + 1) ?s2) = Inr None \<and> m = k \<and>
              fails ?rt (posts (events ?s2) + m) (build_request ?s2 tx ctx)
            \<or> fst (call_llm ?rt tx ctx (rc + 1) ?s2) = Inr (Some (strip c)) \<and>
              remote ?rt (posts (events ?s2) + m) (build_request ?s2 tx ctx) = Content c)"
      using Suc.prems by (intro Suc.IH) (simp_all add: k)
    then obtain m c where
      m: "m \<le> k" and
      fl: "\<forall>i<m. fails rt (Suc (posts (events s)) + i) ?req" and
      st: "snd (call_llm ?rt tx ctx (rc + 1) ?s2) =
             ?s2\<lparr>events := events ?s2 @ attempts m ?req d\<rparr>" and
      res: "fst (call_llm ?rt tx ctx (rc + 1) ?s2) = Inr None \<and> m = k \<and>
              fails rt (Suc (posts (events s)) + m) ?req
            \<or> fst (call_llm ?rt tx ctx (rc + 1) ?s2) = Inr (Some (strip c)) \<and>
              remote rt (Suc (posts (events s)) + m) ?req = Content c"
      by auto
    have b: "\<forall>i<Suc m. fails rt (posts (events s) + i) ?req"
    proof (intro allI impI)
      fix i assume "i < Suc m"
      then show "fails rt (posts (events s) + i) ?req"
        using Failure fl by (cases i) (simp_all add: fails_def)
    qed
    have c: "snd (call_llm rt tx ctx rc s) = s\<lparr>events := events s @ attempts (Suc m) ?req d\<rparr>"
      using st step by simp
    have d: "fst (call_llm rt tx ctx rc s) = Inr None \<and> Suc m = Suc k \<and>
               fails rt (posts (events s) + Suc m) ?req
             \<or> fst (call_llm rt tx ctx rc s) = Inr (Some (strip c)) \<and>
               remote rt (posts (events s) + Suc m) ?req = Content c"
      using res step by auto
    from m b c d show ?thesis by blast
  qed
qed




section \<open>Steps only extend the trace\<close>

lemma no_write_simps [simp]:
  "no_write []" "no_write (Post r # es) = no_write es" "no_write (Sleep d # es) = no_write es"
  "no_write (Write sl t # es) = False" "no_write (es @ fs) = (no_write es \<and> no_write fs)"
  by (simp_all add: no_write_def)

lemma extends_refl [simp]: "extends s s []"
  by (simp add: extends_def)

lemma extends_trans: "extends s s1 es \<Longrightarrow> extends s1 s2 fs \<Longrightarrow> extends s s2 (es @ fs)"
  by (simp add: extends_def)

lemma extends_append: "extends s (s\<lparr>events := events s @ es\<rparr>) es"
  by (simp add: extends_def)

lemma call_llm_step:
  assumes "call_llm rt tx ctx rc s = (r, s')"
  shows "s' = s\<lparr>events := events s @ [Post (build_request s tx ctx)]\<rparr> \<or>
         (\<exists>d. s' = s\<lparr>events := events s @ [Post (build_request s tx ctx), Sleep d]\<rparr>) \<or>
         (\<exists>d. frames rt \<noteq> 0 \<and>
               call_llm (rt\<lparr>frames := frames rt - 1\<rparr>) tx ctx (rc + 1)
                 (s\<lparr>events := events s @ [Post (build_request s tx ctx), Sleep d]\<rparr>) = (r, s'))"
  using assms
  by (subst (asm) call_llm.simps)
     (auto simp: Let_def sleep_def split: reply.splits option.splits if_splits)

lemma call_llm_extends:
  "k = frames rt \<Longrightarrow> call_llm rt tx ctx rc s = (r, s') \<Longrightarrow>
     \<exists>es. extends s s' (Post (build_request s tx ctx) # es) \<and> no_write es"
proof (induction k arbitrary: rt rc s r s')
  case 0
  from call_llm_step[OF "0.prems"(2)] "0.prems"(1) show ?case
    by (auto simp: extends_def intro: exI[of _ "[]"] exI[of _ "[Sleep d]" for d])
next
  case (Suc k)
  let ?req = "build_request s tx ctx"
  from call_llm_step[OF Suc.prems(2)]
  consider "s' = s\<lparr>events := events s @ [Post ?req]\<rparr>"
    | d where "s' = s\<lparr>events := events s @ [Post ?req, Sleep d]\<rparr>"
    | d where "call_llm (rt\<lparr>frames := frames rt - 1\<rparr>) tx ctx (rc + 1)
                 (s\<lparr>events := events s @ [Post ?req, Sleep d]\<rparr>) = (r, s')"
    by blast
  then show ?case
  proof cases
    case 1
    then show ?thesis by (intro exI[of _ "[]"]) (simp add: extends_def)
  next
    case 2
    then show ?thesis by (intro exI[of _ "[Sleep d]"]) (simp add: extends_def)
  next
    case 3
    have "k = frames (rt\<lparr>frames := frames rt - 1\<rparr>)" using Suc.prems(1) by simp
    from Suc.IH[OF this 3] obtain es where
      es: "extends (s\<lparr>events := events s @ [Post ?req, Sleep d]\<rparr>) s' (Post ?req # es)"
        "no_write es"
      by auto
    from es show ?thesis
      by (intro exI[of _ "Sleep d # Post ?req # es"]) (simp add: extends_def)
  qed
qed

lemma translate_text_dict:
  "is_name \<Longrightarrow> preprocess_text s tx \<noteq> tx \<Longrightarrow>
   translate_text rt tx is_name use_context rc s = (Inr (preprocess_text s tx), s)"
  by (subst translate_text.simps) (simp add: Let_def)

lemma translate_text_step:
  assumes "\<not> (is_name \<and> preprocess_text s tx \<noteq> tx)"
    and "call_llm rt (preprocess_text s tx)
           (if use_context \<and> \<not> is_name \<and> context_lines s > 0 then build_context_string s else [])
           0 s = (q, s1)"
    and "translate_text rt tx is_name use_context rc s = (r, s')"
  shows "s' = s1 \<or> (\<exists>d. s' = s1\<lparr>events := events s1 @ [Sleep d]\<rparr>) \<or>
         (\<exists>d. frames rt \<noteq> 0 \<and>
               translate_text (rt\<lparr>frames := frames rt - 1\<rparr>) tx is_name use_context (rc + 1)
                 (s1\<lparr>events := events s1 @ [Sleep d]\<rparr>) = (r, s'))"
proof (cases is_name)
  case True
  with assms(1) have "preprocess_text s tx = tx" by simp
  with True assms(2) assms(3) show ?thesis
    by (subst (asm) translate_text.simps)
       (auto simp: Let_def sleep_def split: sum.splits option.splits if_splits)
next
  case False
  with assms(2) assms(3) show ?thesis
    by (subst (asm) translate_text.simps)
       (auto simp: Let_def sleep_def split: sum.splits option.splits if_splits)
qed

lemma translate_text_extends:
  "k = frames rt \<Longrightarrow> translate_text rt tx is_name use_context rc s = (r, s') \<Longrightarrow>
     \<exists>es. extends s s' es \<and> no_write es"
proof (induction k arbitrary: rt rc s r s')
  case 0
  let ?pre = "preprocess_text s tx"
  let ?ctx = "if use_context \<and> \<not> is_name \<and> context_lines s > 0 then build_context_string s else []"
  show ?case
  proof (cases "is_name \<and> ?pre \<noteq> tx")
    case True
    with "0.prems" have "s' = s" by (simp add: translate_text_dict)
    then show ?thesis by (intro exI[of _ "[]"]) simp
  next
    case False
    obtain q s1 where cl: "call_llm rt ?pre ?ctx 0 s = (q, s1)"
      by (cases "call_llm rt ?pre ?ctx 0 s") auto
    from call_llm_extends[OF refl cl] obtain es where
      es: "extends s s1 (Post (build_request s ?pre ?ctx) # es)" "no_write es" by auto
    from translate_text_step[OF False cl "0.prems"(2)] "0.prems"(1)
    consider "s' = s1" | d where "s' = s1\<lparr>events := events s1 @ [Sleep d]\<rparr>" by auto
    then show ?thesis
    proof cases
      case 1
      with es show ?thesis by (intro exI[of _ "Post (build_request s ?pre ?ctx) # es"]) simp
    next
      case 2
      with es show ?thesis
        by (intro exI[of _ "(Post (build_request s ?pre ?ctx) # es) @ [Sleep d]"])
           (simp add: extends_def)
    qed
  qed
next
  case (Suc k)
  let ?pre = "preprocess_text s tx"
  let ?ctx = "if use_context \<and> \<not> is_name \<and> context_lines s > 0 then build_context_string s else []"
  show ?case
  proof (cases "is_name \<and> ?pre \<noteq> tx")
    case True
    with Suc.prems have "s' = s" by (simp add: translate_text_dict)
    then show ?thesis by (intro exI[of _ "[]"]) simp
  next
    case False
    obtain q s1 where cl: "call_llm rt ?pre ?ctx 0 s = (q, s1)"
      by (cases "call_llm rt ?pre ?ctx 0 s") auto
    from call_llm_extends[OF refl cl] obtain es where
      es: "extends s s1 (Post (build_request s ?pre ?ctx) # es)" "no_write es" by auto
    let ?es = "Post (build_request s ?pre ?ctx) # es"
    from translate_text_step[OF False cl Suc.prems(2)]
    consider "s' = s1" | d where "s' = s1\<lparr>events := events s1 @ [Sleep d]\<rparr>"
      | d where "translate_text (rt\<lparr>frames := frames rt - 1\<rparr>) tx is_name use_context (rc + 1)
                   (s1\<lparr>events := events s1 @ [Sleep d]\<rparr>) = (r, s')"
      by blast
    then show ?thesis
    proof cases
      case 1
      with es show ?thesis by (intro exI[of _ ?es]) simp
    next
      case 2
      with es show ?thesis by (intro exI[of _ "?es @ [Sleep d]"]) (simp add: extends_def)
    next
      case 3
      have "k = frames (rt\<lparr>frames := frames rt - 1\<rparr>)" using Suc.prems(1) by simp
      from Suc.IH[OF this 3] obtain gs where
        gs: "extends (s1\<lparr>events := events s1 @ [Sleep d]\<rparr>) s' gs" "no_write gs" by auto
      from es gs show ?thesis
        by (intro exI[of _ "?es @ Sleep d # gs"]) (simp add: extends_def)
    qed
  qed
qed

lemma translate_text_first_post:
  assumes "\<not> (is_name \<and> preprocess_text s tx \<noteq> tx)"
  shows "\<exists>es. extends s (snd (translate_text rt tx is_name use_context rc s))
           (Post (build_request s (preprocess_text s tx)
              (if use_context \<and> \<not> is_name \<and> context_lines s > 0
               then build_context_string s else [])) # es) \<and> no_write es"
proof -
  let ?pre = "preprocess_text s tx"
  let ?ctx = "if use_context \<and> \<not> is_name \<and> context_lines s > 0 then build_context_string s else []"
  obtain q s1 where cl: "call_llm rt ?pre ?ctx 0 s = (q, s1)"
    by (cases "call_llm rt ?pre ?ctx 0 s") auto
  from call_llm_extends[OF refl cl] obtain es where
    es: "extends s s1 (Post (build_request s ?pre ?ctx) # es)" "no_write es" by auto
  obtain r s' where res: "translate_text rt tx is_name use_context rc s = (r, s')"
    by (cases "translate_text rt tx is_name use_context rc s") auto
  from translate_text_step[OF assms cl res]
  consider "s' = s1" | d where "s' = s1\<lparr>events := events s1 @ [Sleep d]\<rparr>"
    | d where "translate_text (rt\<lparr>frames := frames rt - 1\<rparr>) tx is_name use_context (rc + 1)
                 (s1\<lparr>events := events s1 @ [Sleep d]\<rparr>) = (r, s')"
    by blast
  then have "\<exists>fs. extends s1 s' fs \<and> no_write fs"
  proof cases
    case 1
    then show ?thesis by (intro exI[of _ "[]"]) simp
  next
    case 2
    then show ?thesis by (intro exI[of _ "[Sleep d]"]) (simp add: extends_def)
  next
    case 3
    from translate_text_extends[OF refl 3] obtain gs where
      gs: "extends (s1\<lparr>events := events s1 @ [Sleep d]\<rparr>) s' gs" "no_write gs" by auto
    then show ?thesis by (intro exI[of _ "Sleep d # gs"]) (simp add: extends_def)
  qed
  then obtain fs where fs: "extends s1 s' fs" "no_write fs" by auto
  from extends_trans[OF es(1) fs(1)] es(2) fs(2) res show ?thesis
    by (intro exI[of _ "es @ fs"]) simp
qed

section \<open>Names and the dictionary\<close>

text \<open>
  C9, as the claim puts it, fails on a name in which a dictionary term occurs that the
  dictionary maps to itself. The dictionary pins Alice to Alice; the term occurs in the
  name Alice, the preprocessing leaves the name as it is, and the name is posted: the
  call returns what the remote service makes of it.
\<close>

theorem pinned_name_is_sent_counterexample:
  "dictionary demo_pinned = [(ustr ''Alice'', ustr ''Alice'')] \<and>
   translate_text (answering (ustr ''Arisu'')) (ustr ''Alice'') True True 0 demo_pinned =
     (Inr (ustr ''Arisu''),
      demo_pinned\<lparr>events := [Post (build_request demo_pinned (ustr ''Alice'') [])]\<rparr>)"
proof -
  have p: "preprocess_text demo_pinned (ustr ''Alice'') = ustr ''Alice''"
    by (simp add: preprocess_text_def demo_pinned_def replace.simps)
  have c: "call_llm (answering (ustr ''Arisu'')) (ustr ''Alice'') [] 0 demo_pinned =
     (Inr (Some (ustr ''Arisu'')),
      demo_pinned\<lparr>events := [Post (build_request demo_pinned (ustr ''Alice'') [])]\<rparr>)"
    by (subst call_llm.simps)
       (simp add: Let_def answering_def offline_def demo_pinned_def demo_def strip_def isspace_def)
  have j: "\<not> contains_japanese (ustr ''Arisu'')"
    by (simp add: contains_japanese_def japanese_code_def)
  have ne: "ustr ''Arisu'' \<noteq> []" by simp
  have "translate_text (answering (ustr ''Arisu'')) (ustr ''Alice'') True True 0 demo_pinned =
     (Inr (ustr ''Arisu''),
      demo_pinned\<lparr>events := [Post (build_request demo_pinned (ustr ''Alice'') [])]\<rparr>)"
    by (subst translate_text.simps) (simp add: Let_def p c j ne del: ustr_simps)
  then show ?thesis by (simp add: demo_pinned_def)
qed

text \<open>
  C9, amended. Single-unit translation of a name (\<open>is_name\<close> true): when the dictionary
  preprocessing changes the source text, the call returns the preprocessed text at once
  and the pipeline, its trace included, is unchanged, so nothing is posted; when the
  preprocessing leaves the text as it is, the first thing the call does is post the
  request for it, without context. So a name is sent only when the preprocessing
  leaves it unchanged: what decides is the comparison of the preprocessed text with the
  source text, not the occurrence of a dictionary term.
\<close>

theorem translate_text_name_dictionary:
  "(preprocess_text s tx \<noteq> tx \<longrightarrow>
      translate_text rt tx True use_context rc s = (Inr (preprocess_text s tx), s)) \<and>
   (preprocess_text s tx = tx \<longrightarrow>
      (\<exists>es. events (snd (translate_text rt tx True use_context rc s)) =
              events s @ Post (build_request s tx []) # es))"
proof (intro conjI impI)
  assume "preprocess_text s tx \<noteq> tx"
  then show "translate_text rt tx True use_context rc s = (Inr (preprocess_text s tx), s)"
    by (simp add: translate_text_dict)
next
  assume same: "preprocess_text s tx = tx"
  then have "\<not> (True \<and> preprocess_text s tx \<noteq> tx)" by simp
  from translate_text_first_post[OF this, of rt use_context rc] same
  show "\<exists>es. events (snd (translate_text rt tx True use_context rc s)) =
              events s @ Post (build_request s tx []) # es"
    by (auto simp: extends_def)
qed

theorem translate_text_name_dictionary_witness:
  "preprocess_text (demo\<lparr>dictionary := [(ustr ''ab'', ustr ''X'')]\<rparr>) (ustr ''ab'') \<noteq> ustr ''ab'' \<and>
   translate_text offline (ustr ''ab'') True False 0
       (demo\<lparr>dictionary := [(ustr ''ab'', ustr ''X'')]\<rparr>) =
     (Inr (ustr ''X''), demo\<lparr>dictionary := [(ustr ''ab'', ustr ''X'')]\<rparr>) \<and>
   preprocess_text (demo\<lparr>dictionary := [(ustr ''ab'', ustr ''X'')]\<rparr>) (ustr ''cd'') = ustr ''cd'' \<and>
   (\<exists>es. events (snd (translate_text offline (ustr ''cd'') True False 0
                        (demo\<lparr>dictionary := [(ustr ''ab'', ustr ''X'')]\<rparr>))) =
       events (demo\<lparr>dictionary := [(ustr ''ab'', ustr ''X'')]\<rparr>) @
       Post (build_request (demo\<lparr>dictionary := [(ustr ''ab'', ustr ''X'')]\<rparr>) (ustr ''cd'') []) # es)"
proof -
  let ?s = "demo\<lparr>dictionary := [(ustr ''ab'', ustr ''X'')]\<rparr>"
  have p1: "preprocess_text ?s (ustr ''ab'') = ustr ''X''"
    by (simp add: preprocess_text_def replace.simps)
  have p2: "preprocess_text ?s (ustr ''cd'') = ustr ''cd''"
    by (simp add: preprocess_text_def replace.simps)
  have n1: "preprocess_text ?s (ustr ''ab'') \<noteq> ustr ''ab''"
    unfolding p1 by simp
  from translate_text_name_dictionary[of ?s "ustr ''ab''" offline False 0]
       translate_text_name_dictionary[of ?s "ustr ''cd''" offline False 0]
       n1 p1 p2
  show ?thesis by simp
qed

section \<open>Reassembly of a batch reply\<close>

lemma pad_loop_eq:
  "n = length pre \<Longrightarrow>
   pad_loop tr pre n = tr @ drop (length tr) pre"
proof (induction tr pre n rule: pad_loop.induct)
  case (1 tr pre n)
  show ?case
  proof (cases "length tr < n")
    case True
    with "1.prems" have "pad_loop tr pre n =
        (tr @ [pre ! length tr]) @
          drop (Suc (length tr)) pre"
      using "1.IH"[OF True] by (subst pad_loop.simps) simp
    also have "\<dots> = tr @ drop (length tr) pre"
      using True "1.prems" by (simp add: Cons_nth_drop_Suc)
    finally show ?thesis .
  next
    case False
    with "1.prems" show ?thesis by (subst pad_loop.simps) simp
  qed
qed

lemma parse_lines_eq:
  "parse_lines ls acc =
     acc @ map (\<lambda>l. case match_numbered l of Some rest \<Rightarrow> rest | None \<Rightarrow> l)
             (filter (\<lambda>l. l \<noteq> []) (map strip ls))"
  by (induction ls arbitrary: acc) (auto simp: Let_def split: option.splits)

lemma recover_translations_eq:
  "recover_translations (length pre) pre reply =
     take (length pre) (spec_recovered reply @ drop (length (spec_recovered reply)) pre)"
  by (simp add: recover_translations_def Let_def pad_loop_eq parse_lines_eq spec_recovered_def)

lemma length_recover_translations [simp]:
  "length (recover_translations (length pre) pre reply) = length pre"
  by (simp add: recover_translations_eq)

lemma strip_last: "strip l \<noteq> [] \<Longrightarrow> \<not> isspace (last (strip l))"
proof -
  assume ne: "strip l \<noteq> []"
  let ?ys = "dropWhile isspace (rev (dropWhile isspace l))"
  from ne have "?ys \<noteq> []" by (simp add: strip_def)
  then have "\<not> isspace (hd ?ys)" by (rule hd_dropWhile)
  moreover have "last (strip l) = hd ?ys" using \<open>?ys \<noteq> []\<close> by (simp add: strip_def last_rev)
  ultimately show ?thesis by simp
qed

lemma separators_not_decimal:
  "\<not> isdecimal 0x2E" "\<not> isdecimal 0x29" "\<not> isdecimal 0x3A"
  by (simp_all add: isdecimal_def decimal_runs_def)

lemma match_numbered_stripped:
  "match_numbered (strip l) = Some g \<longleftrightarrow>
     (\<exists>ds sep ws. strip l = ds @ sep # ws @ g \<and> ds \<noteq> [] \<and> list_all isdecimal ds \<and>
        (sep = 0x2E \<or> sep = 0x29 \<or> sep = 0x3A) \<and> list_all isspace ws \<and>
        g \<noteq> [] \<and> \<not> isspace (hd g))"
  (is "?L \<longleftrightarrow> ?R")
proof
  assume L: ?L
  let ?l = "strip l"
  let ?ds = "takeWhile isdecimal ?l"
  from L have ds: "?ds \<noteq> []" by (auto simp: match_numbered_def split: if_splits)
  from L ds obtain sep rest where dr: "dropWhile isdecimal ?l = sep # rest"
    by (cases "dropWhile isdecimal ?l") (auto simp: match_numbered_def)
  from L ds dr have sep: "sep = 0x2E \<or> sep = 0x29 \<or> sep = 0x3A" and rest: "rest \<noteq> []"
    by (auto simp: match_numbered_def split: if_splits)
  have l: "?l = ?ds @ sep # rest" using dr by (metis takeWhile_dropWhile_id)
  then have "?l \<noteq> []" by auto
  from strip_last[OF this] have "\<not> isspace (last ?l)" .
  moreover have "last ?l = last (?ds @ sep # rest)" by (rule arg_cong[OF l])
  moreover have "last (?ds @ sep # rest) = last rest" using rest by simp
  ultimately have nl: "\<not> isspace (last rest)" by simp
  have "dropWhile isspace rest \<noteq> []"
  proof
    assume "dropWhile isspace rest = []"
    then have "\<forall>x\<in>set rest. isspace x" by (simp add: dropWhile_eq_Nil_conv)
    with rest have "isspace (last rest)" by simp
    with nl show False by simp
  qed
  with L ds dr sep rest have g: "g = dropWhile isspace rest"
    by (auto simp: match_numbered_def split: if_splits)
  have "rest = takeWhile isspace rest @ g" using g by simp
  then have "?ds @ sep # rest = ?ds @ sep # takeWhile isspace rest @ g" by simp
  with l have "?l = ?ds @ sep # takeWhile isspace rest @ g" by (rule trans)
  moreover have "list_all isdecimal ?ds" by (simp add: list_all_iff) (meson set_takeWhileD)
  moreover have "list_all isspace (takeWhile isspace rest)"
    by (simp add: list_all_iff) (meson set_takeWhileD)
  moreover have "g \<noteq> []" "\<not> isspace (hd g)"
    using g \<open>dropWhile isspace rest \<noteq> []\<close> hd_dropWhile[of isspace rest] by auto
  ultimately show ?R using ds sep by blast
next
  assume ?R
  then obtain ds sep ws where
    l: "strip l = ds @ sep # ws @ g" and ds: "ds \<noteq> []" "list_all isdecimal ds" and
    sep: "sep = 0x2E \<or> sep = 0x29 \<or> sep = 0x3A" and ws: "list_all isspace ws" and
    g: "g \<noteq> []" "\<not> isspace (hd g)"
    by blast
  from sep have nd: "\<not> isdecimal sep" using separators_not_decimal by auto
  have tw: "takeWhile isdecimal (strip l) = ds"
    unfolding l using ds nd by (simp add: list_all_iff takeWhile_append2)
  have dw: "dropWhile isdecimal (strip l) = sep # ws @ g"
    unfolding l using ds nd by (simp add: list_all_iff dropWhile_append2)
  have dws: "dropWhile isspace (ws @ g) = g"
    using ws g by (cases g) (simp_all add: list_all_iff dropWhile_append2)
  show ?L
    using tw dw dws ds g sep by (auto simp: match_numbered_def)
qed

lemma first_japanese_none:
  "first_japanese idx trs = None \<longleftrightarrow> \<not> list_ex contains_japanese trs"
  by (induction trs arbitrary: idx) simp_all

lemma translate_batch_call:
  assumes "texts \<noteq> []"
    and "call_llm rt (batch_prompt s use_context (map (preprocess_text s) texts)) [] 0 s = (q, s1)"
  shows "translate_batch rt texts use_context rc s =
     (case q of
        Inl x \<Rightarrow> (Inl x, s1)
      | Inr None \<Rightarrow> (Inr (map (preprocess_text s) texts), s1)
      | Inr (Some result) \<Rightarrow>
          if result = [] then (Inr (map (preprocess_text s) texts), s1)
          else if retry_on s1 \<and> rc < max_retries s1 then
            (case first_japanese 0
                    (recover_translations (length texts) (map (preprocess_text s) texts) result) of
               None \<Rightarrow>
                 (Inr (recover_translations (length texts) (map (preprocess_text s) texts) result), s1)
             | Some warning \<Rightarrow>
                 if \<not> prints rt [warning, RetryBatch (rc + 1) (max_retries s1)]
                 then (Inl UnicodeEncodeError, s1)
                 else
                   (case sleep rt (retry_pause s1) s1 of
                      (Inl x, s2) \<Rightarrow> (Inl x, s2)
                    | (Inr u, s2) \<Rightarrow>
                        if frames rt = 0 then (Inl RecursionError, s2)
                        else translate_batch (rt\<lparr>frames := frames rt - 1\<rparr>)
                               texts use_context (rc + 1) s2))
          else (Inr (recover_translations (length texts) (map (preprocess_text s) texts) result), s1))"
  using assms
  by (subst translate_batch.simps) (simp add: Let_def split: sum.splits option.splits)

lemma translate_batch_step:
  assumes "texts \<noteq> []"
    and "call_llm rt (batch_prompt s use_context (map (preprocess_text s) texts)) [] 0 s = (q, s1)"
    and "translate_batch rt texts use_context rc s = (r, s')"
  shows "s' = s1 \<and>
           ((\<exists>x. r = Inl x) \<or> r = Inr (map (preprocess_text s) texts) \<or>
            (\<exists>result. r = Inr (recover_translations (length texts)
                                  (map (preprocess_text s) texts) result))) \<or>
         (\<exists>d x. s' = s1\<lparr>events := events s1 @ [Sleep d]\<rparr> \<and> r = Inl x) \<or>
         (\<exists>d. frames rt \<noteq> 0 \<and>
               translate_batch (rt\<lparr>frames := frames rt - 1\<rparr>) texts use_context (rc + 1)
                 (s1\<lparr>events := events s1 @ [Sleep d]\<rparr>) = (r, s'))"
  using assms(3) unfolding translate_batch_call[OF assms(1) assms(2), where rc = rc]
  by (auto simp: sleep_def split: sum.splits option.splits if_splits)

lemma translate_batch_result:
  "k = frames rt \<Longrightarrow> translate_batch rt texts use_context rc s = (r, s') \<Longrightarrow>
     (\<exists>es. extends s s' es \<and> no_write es) \<and> (\<forall>trs. r = Inr trs \<longrightarrow> length trs = length texts)"
proof (induction k arbitrary: rt rc s r s')
  case 0
  let ?pre = "map (preprocess_text s) texts"
  let ?prompt = "batch_prompt s use_context ?pre"
  show ?case
  proof (cases "texts = []")
    case True
    have "translate_batch rt [] use_context rc s = (Inr [], s)"
      by (subst translate_batch.simps) simp
    with True "0.prems" have "s' = s" "r = Inr []" by simp_all
    with True show ?thesis by (auto intro: exI[of _ "[]"])
  next
    case False
    obtain q s1 where cl: "call_llm rt ?prompt [] 0 s = (q, s1)"
      by (cases "call_llm rt ?prompt [] 0 s") auto
    from call_llm_extends[OF refl cl] obtain es where
      es: "extends s s1 (Post (build_request s ?prompt []) # es)" "no_write es" by auto
    let ?es = "Post (build_request s ?prompt []) # es"
    have len: "length (recover_translations (length texts) ?pre result) = length texts"
      for result using length_recover_translations[of ?pre result] by simp
    from translate_batch_step[OF False cl "0.prems"(2)] "0.prems"(1)
    consider "s' = s1" "\<forall>trs. r = Inr trs \<longrightarrow> length trs = length texts"
      | d x where "s' = s1\<lparr>events := events s1 @ [Sleep d]\<rparr>" "r = Inl x"
      using len by auto
    then show ?thesis
    proof cases
      case 1
      with es show ?thesis by (auto intro!: exI[of _ ?es])
    next
      case 2
      with es show ?thesis by (auto simp: extends_def intro!: exI[of _ "?es @ [Sleep d]"])
    qed
  qed
next
  case (Suc k)
  let ?pre = "map (preprocess_text s) texts"
  let ?prompt = "batch_prompt s use_context ?pre"
  show ?case
  proof (cases "texts = []")
    case True
    have "translate_batch rt [] use_context rc s = (Inr [], s)"
      by (subst translate_batch.simps) simp
    with True Suc.prems have "s' = s" "r = Inr []" by simp_all
    with True show ?thesis by (auto intro: exI[of _ "[]"])
  next
    case False
    obtain q s1 where cl: "call_llm rt ?prompt [] 0 s = (q, s1)"
      by (cases "call_llm rt ?prompt [] 0 s") auto
    from call_llm_extends[OF refl cl] obtain es where
      es: "extends s s1 (Post (build_request s ?prompt []) # es)" "no_write es" by auto
    let ?es = "Post (build_request s ?prompt []) # es"
    have len: "length (recover_translations (length texts) ?pre result) = length texts"
      for result using length_recover_translations[of ?pre result] by simp
    from translate_batch_step[OF False cl Suc.prems(2)]
    consider "s' = s1" "\<forall>trs. r = Inr trs \<longrightarrow> length trs = length texts"
      | d x where "s' = s1\<lparr>events := events s1 @ [Sleep d]\<rparr>" "r = Inl x"
      | d where "translate_batch (rt\<lparr>frames := frames rt - 1\<rparr>) texts use_context (rc + 1)
                   (s1\<lparr>events := events s1 @ [Sleep d]\<rparr>) = (r, s')"
      using len by auto
    then show ?thesis
    proof cases
      case 1
      with es show ?thesis by (auto intro!: exI[of _ ?es])
    next
      case 2
      with es show ?thesis by (auto simp: extends_def intro!: exI[of _ "?es @ [Sleep d]"])
    next
      case 3
      have "k = frames (rt\<lparr>frames := frames rt - 1\<rparr>)" using Suc.prems(1) by simp
      from Suc.IH[OF this 3] obtain gs where
        gs: "extends (s1\<lparr>events := events s1 @ [Sleep d]\<rparr>) s' gs" "no_write gs"
        and l: "\<forall>trs. r = Inr trs \<longrightarrow> length trs = length texts" by auto
      from es gs l show ?thesis
        by (auto simp: extends_def intro!: exI[of _ "?es @ Sleep d # gs"])
    qed
  qed
qed

lemma spec_recovered_three:
  "spec_recovered reply_three = [ustr ''Hello'', ustr ''World'', ustr ''Foo'']"
  by (simp add: spec_recovered_def reply_three_def match_numbered_def isdecimal_def
      decimal_runs_def isspace_def strip_def)

lemma spec_recovered_two:
  "spec_recovered reply_two = [ustr ''Hello'', ustr ''World'']"
  by (simp add: spec_recovered_def reply_two_def match_numbered_def isdecimal_def
      decimal_runs_def isspace_def strip_def)

lemma strip_replies: "strip reply_three = reply_three" "strip reply_two = reply_two"
  by (simp_all add: reply_three_def reply_two_def strip_def isspace_def)

lemma no_japanese_ascii:
  "\<not> contains_japanese (ustr ''Hello'')" "\<not> contains_japanese (ustr ''World'')"
  "\<not> contains_japanese (ustr ''Foo'')" "\<not> contains_japanese (ustr ''z'')"
  by (simp_all add: contains_japanese_def japanese_code_def)

text \<open>
  C2. Reassembly of the reply to a batch of \<open>n\<close> units. When the remote call yields a
  reply and no validation retry is due, the batch translator returns the translations
  recovered from that reply. They are: the reply cut at line feeds, each line trimmed,
  empty lines passed over; a line that matches the number pattern (decimal digits, one
  of \<open>.\<close> \<open>)\<close> \<open>:\<close>, optional whitespace, then a remainder that is not empty) gives
  its remainder, any other line gives itself, in the order of the reply; this list
  padded at its end with the preprocessed texts of the units it does not reach, and cut
  to \<open>n\<close>, so that it always has exactly \<open>n\<close> entries. Three units answered with
  \<open>1. Hello\<close>, \<open>2. World\<close>, \<open>3. Foo\<close> on three lines give Hello, World, Foo.
\<close>

theorem batch_reassembly:
  "(texts \<noteq> [] \<and>
    call_llm rt (batch_prompt s use_context (map (preprocess_text s) texts)) [] 0 s =
      (Inr (Some reply), s1) \<and>
    reply \<noteq> [] \<and>
    \<not> (retry_on s1 \<and> rc < max_retries s1 \<and>
       list_ex contains_japanese
         (recover_translations (length texts) (map (preprocess_text s) texts) reply))
    \<longrightarrow> translate_batch rt texts use_context rc s =
          (Inr (recover_translations (length texts) (map (preprocess_text s) texts) reply), s1)) \<and>
   recover_translations (length pre) pre reply =
     take (length pre) (spec_recovered reply @ drop (length (spec_recovered reply)) pre) \<and>
   length (recover_translations (length pre) pre reply) = length pre \<and>
   (match_numbered (strip l) = Some g \<longleftrightarrow>
     (\<exists>ds sep ws. strip l = ds @ sep # ws @ g \<and> ds \<noteq> [] \<and> list_all isdecimal ds \<and>
        (sep = 0x2E \<or> sep = 0x29 \<or> sep = 0x3A) \<and> list_all isspace ws \<and>
        g \<noteq> [] \<and> \<not> isspace (hd g))) \<and>
   translate_batch (rt\<lparr>remote := \<lambda>k r. Content reply_three\<rparr>) [a, b, c] use_context rc s =
     (Inr [ustr ''Hello'', ustr ''World'', ustr ''Foo''],
      s\<lparr>events := events s @
         [Post (build_request s (batch_prompt s use_context (map (preprocess_text s) [a, b, c])) [])]\<rparr>)"
proof (intro conjI impI)
  assume h: "texts \<noteq> [] \<and>
    call_llm rt (batch_prompt s use_context (map (preprocess_text s) texts)) [] 0 s =
      (Inr (Some reply), s1) \<and>
    reply \<noteq> [] \<and>
    \<not> (retry_on s1 \<and> rc < max_retries s1 \<and>
       list_ex contains_japanese
         (recover_translations (length texts) (map (preprocess_text s) texts) reply))"
  then have ne: "texts \<noteq> []" and
    cl: "call_llm rt (batch_prompt s use_context (map (preprocess_text s) texts)) [] 0 s =
      (Inr (Some reply), s1)" by simp_all
  from h have nj: "retry_on s1 \<and> rc < max_retries s1 \<Longrightarrow>
      first_japanese 0
        (recover_translations (length texts) (map (preprocess_text s) texts) reply) = None"
    by (simp add: first_japanese_none)
  from h nj show "translate_batch rt texts use_context rc s =
          (Inr (recover_translations (length texts) (map (preprocess_text s) texts) reply), s1)"
    by (simp only: translate_batch_call[OF ne cl, where rc = rc]) auto
next
  show "recover_translations (length pre) pre reply =
     take (length pre) (spec_recovered reply @ drop (length (spec_recovered reply)) pre)"
    by (rule recover_translations_eq)
next
  show "length (recover_translations (length pre) pre reply) = length pre" by simp
next
  show "match_numbered (strip l) = Some g \<longleftrightarrow>
     (\<exists>ds sep ws. strip l = ds @ sep # ws @ g \<and> ds \<noteq> [] \<and> list_all isdecimal ds \<and>
        (sep = 0x2E \<or> sep = 0x29 \<or> sep = 0x3A) \<and> list_all isspace ws \<and>
        g \<noteq> [] \<and> \<not> isspace (hd g))"
    by (rule match_numbered_stripped)
next
  let ?rt = "rt\<lparr>remote := \<lambda>k r. Content reply_three\<rparr>"
  let ?pre = "map (preprocess_text s) [a, b, c]"
  let ?prompt = "batch_prompt s use_context ?pre"
  let ?s1 = "s\<lparr>events := events s @ [Post (build_request s ?prompt [])]\<rparr>"
  have cl: "call_llm ?rt ?prompt [] 0 s = (Inr (Some reply_three), ?s1)"
    by (simp add: call_llm_content strip_replies)
  have rec: "recover_translations (length [a, b, c]) ?pre reply_three =
      [ustr ''Hello'', ustr ''World'', ustr ''Foo'']"
    using recover_translations_eq[of ?pre reply_three] by (simp add: spec_recovered_three)
  have ne: "reply_three \<noteq> []" by (simp add: reply_three_def)
  have "[a, b, c] \<noteq> []" by simp
  from translate_batch_call[OF this cl, where rc = rc] rec ne no_japanese_ascii
  show "translate_batch ?rt [a, b, c] use_context rc s =
     (Inr [ustr ''Hello'', ustr ''World'', ustr ''Foo''], ?s1)"
    by (simp del: ustr_simps)
qed

theorem batch_reassembly_witness:
  "[ustr ''x'', ustr ''y'', ustr ''z''] \<noteq> [] \<and>
   call_llm (answering reply_two)
     (batch_prompt demo False (map (preprocess_text demo) [ustr ''x'', ustr ''y'', ustr ''z''])) [] 0 demo =
     (Inr (Some reply_two),
      demo\<lparr>events := [Post (build_request demo
         (batch_prompt demo False (map (preprocess_text demo) [ustr ''x'', ustr ''y'', ustr ''z''])) [])]\<rparr>) \<and>
   reply_two \<noteq> [] \<and>
   \<not> list_ex contains_japanese
       (recover_translations (length [ustr ''x'', ustr ''y'', ustr ''z''])
          (map (preprocess_text demo) [ustr ''x'', ustr ''y'', ustr ''z'']) reply_two) \<and>
   translate_batch (answering reply_two) [ustr ''x'', ustr ''y'', ustr ''z''] False 0 demo =
     (Inr [ustr ''Hello'', ustr ''World'', ustr ''z''],
      demo\<lparr>events := [Post (build_request demo
         (batch_prompt demo False (map (preprocess_text demo) [ustr ''x'', ustr ''y'', ustr ''z''])) [])]\<rparr>)"
proof -
  let ?texts = "[ustr ''x'', ustr ''y'', ustr ''z'']"
  let ?pre = "map (preprocess_text demo) ?texts"
  let ?prompt = "batch_prompt demo False ?pre"
  let ?s1 = "demo\<lparr>events := [Post (build_request demo ?prompt [])]\<rparr>"
  have ev: "events demo = []" by (simp add: demo_def)
  have pre: "?pre = ?texts" by (simp add: preprocess_text_def demo_def)
  have rm: "remote (answering reply_two) = (\<lambda>k r. Content reply_two)"
    by (simp add: answering_def)
  have cl: "call_llm (answering reply_two) ?prompt [] 0 demo = (Inr (Some reply_two), ?s1)"
    by (simp add: call_llm_content strip_replies ev rm)
  have ne: "reply_two \<noteq> []" by (simp add: reply_two_def)
  have rec: "recover_translations (length ?texts) ?pre reply_two =
      [ustr ''Hello'', ustr ''World'', ustr ''z'']"
    unfolding pre using recover_translations_eq[of ?texts reply_two]
    by (simp add: spec_recovered_two)
  have nj: "\<not> list_ex contains_japanese (recover_translations (length ?texts) ?pre reply_two)"
    unfolding rec using no_japanese_ascii by simp
  have "translate_batch (answering reply_two) ?texts False 0 demo =
          (Inr (recover_translations (length ?texts) ?pre reply_two), ?s1)"
    using batch_reassembly[of ?texts "answering reply_two" demo False reply_two ?s1 0]
      cl ne nj by blast
  with cl ne nj rec show ?thesis by simp
qed

section \<open>Validation retry of a batch\<close>

lemma preprocess_text_events [simp]:
  "preprocess_text (s\<lparr>events := es\<rparr>) = preprocess_text s"
  by (rule ext) (simp add: preprocess_text_def)

lemma batch_prompt_events [simp]:
  "batch_prompt (s\<lparr>events := es\<rparr>) = batch_prompt s"
  by (intro ext) (simp add: batch_prompt_def build_context_string_def)

lemma retry_on_events [simp]: "retry_on (s\<lparr>events := es\<rparr>) = retry_on s"
  by (simp add: retry_on_def)

lemma max_retries_events [simp]: "max_retries (s\<lparr>events := es\<rparr>) = max_retries s"
  by (simp add: max_retries_def)

lemma retry_pause_events [simp]: "retry_pause (s\<lparr>events := es\<rparr>) = retry_pause s"
  by (simp add: retry_pause_def)

lemma assign_events [simp]:
  "events (snd (assign sl t ds)) = events (snd ds) @ [Write sl t]"
  by (cases ds) (simp add: assign_def)

lemma assign_loop_events:
  "events (snd (fst (assign_loop zs ds failed_items n))) = events (snd ds) @ writes_of zs"
  by (induction zs ds failed_items n rule: assign_loop.induct) (simp_all add: writes_of_def)

lemma first_japanese_some:
  "list_ex contains_japanese trs \<Longrightarrow> \<exists>w. first_japanese idx trs = Some w"
  using first_japanese_none[of idx trs] by (cases "first_japanese idx trs") simp_all

lemma translate_batch_first_post:
  assumes "texts \<noteq> []"
  shows "\<exists>es. extends s (snd (translate_batch rt texts use_context rc s))
           (Post (build_request s (batch_prompt s use_context (map (preprocess_text s) texts)) []) # es)
         \<and> no_write es"
proof -
  let ?prompt = "batch_prompt s use_context (map (preprocess_text s) texts)"
  obtain q s1 where cl: "call_llm rt ?prompt [] 0 s = (q, s1)"
    by (cases "call_llm rt ?prompt [] 0 s") auto
  from call_llm_extends[OF refl cl] obtain es where
    es: "extends s s1 (Post (build_request s ?prompt []) # es)" "no_write es" by auto
  obtain r s' where res: "translate_batch rt texts use_context rc s = (r, s')"
    by (cases "translate_batch rt texts use_context rc s") auto
  from translate_batch_step[OF assms cl res]
  consider "s' = s1" | d where "s' = s1\<lparr>events := events s1 @ [Sleep d]\<rparr>"
    | d where "translate_batch (rt\<lparr>frames := frames rt - 1\<rparr>) texts use_context (rc + 1)
                 (s1\<lparr>events := events s1 @ [Sleep d]\<rparr>) = (r, s')"
    by blast
  then have "\<exists>fs. extends s1 s' fs \<and> no_write fs"
  proof cases
    case 1
    then show ?thesis by (intro exI[of _ "[]"]) simp
  next
    case 2
    then show ?thesis by (intro exI[of _ "[Sleep d]"]) (simp add: extends_def)
  next
    case 3
    from translate_batch_result[OF refl 3] obtain gs where
      gs: "extends (s1\<lparr>events := events s1 @ [Sleep d]\<rparr>) s' gs" "no_write gs" by auto
    then show ?thesis by (intro exI[of _ "Sleep d # gs"]) (simp add: extends_def)
  qed
  then obtain fs where fs: "extends s1 s' fs" "no_write fs" by auto
  from extends_trans[OF es(1) fs(1)] es(2) fs(2) res show ?thesis
    by (intro exI[of _ "es @ fs"]) simp
qed

lemma first_pass_batch_trace:
  assumes "first_pass_batch rt batch ds failed_items n = (Inr fc, ds')"
  shows "\<exists>es trs. translate_batch rt (map it_text batch) False 0 (snd ds) =
              (Inr trs, (snd ds)\<lparr>events := events (snd ds) @ es\<rparr>) \<and>
           no_write es \<and> length trs = length batch \<and>
           events (snd ds') = events (snd ds) @ es @ writes_of (zip batch trs)"
proof -
  obtain q s1 where tb: "translate_batch rt (map it_text batch) False 0 (snd ds) = (q, s1)"
    by (cases "translate_batch rt (map it_text batch) False 0 (snd ds)") auto
  from translate_batch_result[OF refl tb] obtain es where
    es: "extends (snd ds) s1 es" "no_write es" and
    len: "\<forall>trs. q = Inr trs \<longrightarrow> length trs = length (map it_text batch)" by auto
  from assms tb obtain trs where q: "q = Inr trs"
    by (cases q) (auto simp: first_pass_batch_def Let_def)
  from assms tb q have
    "ds' = fst (assign_loop (zip batch trs) (fst ds, s1) failed_items n)"
    by (auto simp: first_pass_batch_def Let_def split: prod.splits)
  then have "events (snd ds') = events s1 @ writes_of (zip batch trs)"
    by (simp add: assign_loop_events)
  with es tb q len show ?thesis
    by (intro exI[of _ es] exI[of _ trs]) (simp add: extends_def)
qed

lemma call_llm_config:
  assumes "call_llm rt tx ctx rc s = (q, s1)"
  shows "retry_on s1 = retry_on s" "max_retries s1 = max_retries s"
    "retry_pause s1 = retry_pause s"
proof -
  from call_llm_extends[OF refl assms] obtain es where
    "s1 = s\<lparr>events := events s @ Post (build_request s tx ctx) # es\<rparr>"
    by (auto simp: extends_def)
  then show "retry_on s1 = retry_on s" "max_retries s1 = max_retries s"
    "retry_pause s1 = retry_pause s"
    by simp_all
qed

lemma japanese_reply:
  "strip reply_japanese = reply_japanese" "reply_japanese \<noteq> []"
  "spec_recovered reply_japanese = [[0x3042]]" "contains_japanese [0x3042]"
  by (simp_all add: spec_recovered_def reply_japanese_def match_numbered_def isdecimal_def
        decimal_runs_def isspace_def strip_def contains_japanese_def japanese_code_def)




section \<open>Collection of the units to translate\<close>

lemma collect_choices_eq:
  "collect_choices i j cs acc = acc @ spec_block_choice_units i j cs"
  by (induction cs arbitrary: j acc) (simp_all add: spec_block_choice_units_def)

lemma collect_items_eq:
  "collect_items idx blocks (ns, ts, cs) =
     (ns @ spec_name_units idx blocks, ts @ spec_text_units idx blocks,
      cs @ spec_choice_units idx blocks)"
proof (induction blocks arbitrary: idx ns ts cs)
  case Nil
  then show ?case
    by (simp add: spec_name_units_def spec_text_units_def spec_choice_units_def)
next
  case (Cons b blocks)
  have c: "(if choices b \<noteq> [] then collect_choices idx 0 (choices b) cs else cs) =
             cs @ spec_block_choice_units idx 0 (choices b)"
    by (simp add: collect_choices_eq spec_block_choice_units_def)
  show ?case
    by (simp add: Let_def Cons.IH c spec_name_units_def spec_text_units_def spec_choice_units_def)
qed

text \<open>
  What the batched translator collects, with the tests the code makes: the units whose
  target slot is empty and whose source text is not empty, a name unit only when its
  source is not whitespace alone. The name units come first, then the text units, then
  the choice units, each kind in the order of the blocks, the choices of a block in
  their own order.
\<close>

lemma collection_order:
  "all_items blocks =
     spec_name_units 0 blocks @ spec_text_units 0 blocks @ spec_choice_units 0 blocks"
  by (simp add: all_items_def collect_items_eq)

text \<open>
  C3. The code misses the claim on a unit whose source is whitespace alone. The test of
  a name trims the source (\<^verbatim>\<open>jp_name and jp_name.strip()\<close>); the tests of a text and
  of a choice do not. A block with an empty target text and a source text of one space
  has its text unit collected, and so has a choice with such a source; the same space
  as the source of a name is skipped, as the claim says of all three.
\<close>

theorem whitespace_text_is_collected:
  "strip (jpText blank_text_block) = [] \<and> enText blank_text_block = [] \<and>
   all_items [blank_text_block] = [\<lparr>it_slot = TextSlot 0, it_text = ustr '' '', it_idx = 0\<rparr>] \<and>
   all_items [blank_text_block\<lparr>jpText := [],
                choices := [\<lparr>c_jpText = ustr '' '', c_enText = []\<rparr>]\<rparr>] =
     [\<lparr>it_slot = ChoiceSlot 0 0, it_text = ustr '' '', it_idx = 0\<rparr>] \<and>
   all_items [blank_text_block\<lparr>jpText := [], jpName := ustr '' ''\<rparr>] = []"
  by (simp add: all_items_def blank_text_block_def strip_def isspace_def)

section \<open>The escalation pass\<close>

lemma set_model_simps [simp]:
  "llm_config (set_model m t s) = (llm_config s)\<lparr>model := m, temperature := t\<rparr>"
  "trans_config (set_model m t s) = trans_config s"
  "dictionary (set_model m t s) = dictionary s"
  "context_lines (set_model m t s) = context_lines s"
  "current_context (set_model m t s) = current_context s"
  "events (set_model m t s) = events s"
  by (simp_all add: set_model_def)

lemma batch_prompt_set_model [simp]: "batch_prompt (set_model m t s) = batch_prompt s"
  by (intro ext) (simp add: batch_prompt_def build_context_string_def)

lemma set_model_events [simp]:
  "set_model m t (s\<lparr>events := es\<rparr>) = (set_model m t s)\<lparr>events := es\<rparr>"
  by (simp add: set_model_def)

lemma single_reply:
  assumes "remote rt (posts (events s)) = (\<lambda>r. Content c)" "strip c = c" "c \<noteq> []"
    "spec_recovered c = [t]" "dictionary s = []" "\<not> retry_on s"
  shows "translate_batch rt [ustr ''x''] False 0 s =
     (Inr [t],
      s\<lparr>events := events s @ [Post (build_request s (batch_prompt s False [ustr ''x'']) [])]\<rparr>)"
proof -
  let ?texts = "[ustr ''x'']"
  have p1: "preprocess_text s tx = tx" for tx
    using assms(5) by (simp add: preprocess_text_def)
  have pre: "map (preprocess_text s) ?texts = ?texts"
    by (simp add: p1)
  let ?prompt = "batch_prompt s False ?texts"
  let ?s1 = "s\<lparr>events := events s @ [Post (build_request s ?prompt [])]\<rparr>"
  have cl: "call_llm rt (batch_prompt s False (map (preprocess_text s) ?texts)) [] 0 s =
      (Inr (Some c), ?s1)"
    unfolding pre using assms(1,2) by (simp add: call_llm_content)
  have rec: "recover_translations (length ?texts) ?texts c = [t]"
    using recover_translations_eq[of ?texts c] by (simp add: assms(4))
  have "?texts \<noteq> []" by simp
  from translate_batch_call[OF this cl, where rc = 0] rec assms(3,6)
  show ?thesis by (simp add: p1 del: ustr_simps)
qed

lemma first_pass_japanese:
  assumes "remote rt 0 = (\<lambda>r. Content reply_japanese)"
  shows "translate_json_batched rt ([demo_block], demo_no_retry) =
     (case second_pass_translation rt [(demo_item, [0x3042])]
             ([demo_block\<lparr>enName := [0x3042]\<rparr>],
              demo_no_retry\<lparr>events :=
                [Post (build_request demo_no_retry (batch_prompt demo_no_retry False [ustr ''x'']) []),
                 Write (NameSlot 0) [0x3042]]\<rparr>) of
        (Inl x, ds2) \<Rightarrow> (Inl x, ds2)
      | (Inr fixed, ds2) \<Rightarrow> (Inr (1 + fixed), ds2))"
proof -
  have ai: "all_items [demo_block] = [demo_item]"
    by (simp add: all_items_def demo_block_def demo_item_def strip_def isspace_def)
  have cfg: "events demo_no_retry = []" "dictionary demo_no_retry = []"
    "\<not> retry_on demo_no_retry"
    "batch_size (trans_config demo_no_retry) = Some 2"
    "batch_delay (trans_config demo_no_retry) = None"
    "enable_two_pass (trans_config demo_no_retry) = Some True"
    by (simp_all add: demo_no_retry_def demo_def retry_on_def)
  have sl: "py_slice [demo_item] 0 1 = [demo_item]" by (simp add: py_slice_def)
  have tx: "it_text demo_item = ustr ''x''" "it_slot demo_item = NameSlot 0"
    by (simp_all add: demo_item_def)
  have fp: "first_pass_batch rt [demo_item] ([demo_block], demo_no_retry) [] 0 =
      (Inr ([(demo_item, [0x3042])], 1),
       [demo_block\<lparr>enName := [0x3042]\<rparr>],
       demo_no_retry\<lparr>events :=
          [Post (build_request demo_no_retry (batch_prompt demo_no_retry False [ustr ''x'']) []),
           Write (NameSlot 0) [0x3042]]\<rparr>)"
    using single_reply[of rt demo_no_retry reply_japanese "[0x3042]"] assms cfg
    by (simp add: first_pass_batch_def tx assign_def japanese_reply del: ustr_simps)
  show ?thesis
    by (simp add: translate_json_batched_def Let_def ai cfg sl fp del: ustr_simps)
qed

text \<open>
  C5. The code misses the claim where a \<^verbatim>\<open>print\<close> of the pass raises between the two
  pairs of assignments: the primary model and temperature are set again by plain
  statements after the loop, not in a \<^verbatim>\<open>finally\<close> clause. A record set of one block with
  the name \<open>x\<close> is translated in batches with the validation retry switched off and
  the escalation pass switched on. The first reply is Japanese, so the name goes to
  the escalation pass; the reply of the alternate model ends in a lone surrogate. The
  pass assigns the new name and prints the line that announces it, the UTF-8 console
  raises \<^verbatim>\<open>UnicodeEncodeError\<close>, and the exception leaves the run with the alternate
  model and temperature in place of the primary ones.
\<close>

theorem escalation_leaves_alternate_model:
  "translate_json_file cut_emoji ([demo_block], demo_no_retry) =
     (Inl UnicodeEncodeError,
      [demo_block\<lparr>enName := ustr ''Aqua'' @ [0xD83D]\<rparr>],
      (set_model (ustr ''strong'') (3 / 10) demo_no_retry)\<lparr>events :=
         [Post (build_request demo_no_retry (batch_prompt demo_no_retry False [ustr ''x'']) []),
          Write (NameSlot 0) [0x3042],
          Post (build_request (set_model (ustr ''strong'') (3 / 10) demo_no_retry)
                  (batch_prompt demo_no_retry False [ustr ''x'']) []),
          Write (NameSlot 0) (ustr ''Aqua'' @ [0xD83D])]\<rparr>) \<and>
   model (llm_config demo_no_retry) = ustr ''primary'' \<and>
   temperature (llm_config demo_no_retry) = 7 / 10 \<and>
   model (llm_config (snd (snd (translate_json_file cut_emoji ([demo_block], demo_no_retry))))) =
     ustr ''strong'' \<and>
   temperature (llm_config (snd (snd (translate_json_file cut_emoji ([demo_block], demo_no_retry))))) =
     3 / 10"
proof -
  let ?p1 = "Post (build_request demo_no_retry (batch_prompt demo_no_retry False [ustr ''x'']) [])"
  let ?s1 = "demo_no_retry\<lparr>events := [?p1, Write (NameSlot 0) [0x3042]]\<rparr>"
  let ?S = "set_model (ustr ''strong'') (3 / 10) demo_no_retry"
  let ?s2 = "?S\<lparr>events := [?p1, Write (NameSlot 0) [0x3042]]\<rparr>"
  let ?p2 = "Post (build_request ?S (batch_prompt demo_no_retry False [ustr ''x'']) [])"
  let ?new = "ustr ''Aqua'' @ [0xD83D]"
  let ?s3 = "?S\<lparr>events := [?p1, Write (NameSlot 0) [0x3042], ?p2]\<rparr>"
  let ?s4 = "?S\<lparr>events := [?p1, Write (NameSlot 0) [0x3042], ?p2, Write (NameSlot 0) ?new]\<rparr>"
  let ?failed = "[(demo_item, [0x3042])]"
  let ?data1 = "[demo_block\<lparr>enName := [0x3042]\<rparr>]"
  have rm: "remote cut_emoji 0 = (\<lambda>r. Content reply_japanese)"
    "remote cut_emoji (Suc 0) = (\<lambda>r. Content reply_cut)"
    "console cut_emoji = utf8_console"
    by (simp_all add: cut_emoji_def)
  have cfg: "model (llm_config demo_no_retry) = ustr ''primary''"
    "temperature (llm_config demo_no_retry) = 7 / 10"
    "second_pass_model (trans_config demo_no_retry) = Some (ustr ''strong'')"
    "second_pass_temperature (trans_config demo_no_retry) = None"
    "batch_size (trans_config demo_no_retry) = Some 2"
    "dictionary demo_no_retry = []" "\<not> retry_on demo_no_retry"
    "use_batch_translation (trans_config demo_no_retry) = None"
    by (simp_all add: demo_no_retry_def demo_def retry_on_def)
  have cut: "strip reply_cut = reply_cut" "reply_cut \<noteq> []" "spec_recovered reply_cut = [?new]"
    "\<not> contains_japanese ?new" "?new \<noteq> []"
    by (simp_all add: spec_recovered_def reply_cut_def match_numbered_def isdecimal_def
        decimal_runs_def isspace_def strip_def contains_japanese_def japanese_code_def)
  have pr: "prints cut_emoji [PassBanner, PassFound (length ?failed)]"
    "prints cut_emoji [UsingModel (ustr ''strong'') (3 / 10), LoadNote]"
    "console cut_emoji (PassBatch 1 1)"
    "\<not> console cut_emoji (NameFixed 0 (take 40 ?new))"
    by (simp_all add: prints_def rm utf8_console_def surrogate_def)
  have ro: "\<not> retry_on ?s2" using cfg(7) by (simp add: retry_on_def)
  have tb: "translate_batch cut_emoji [ustr ''x''] False 0 ?s2 =
      (Inr [?new], ?s3)"
    using single_reply[of cut_emoji ?s2 reply_cut ?new] rm cut cfg ro by simp
  have tx: "it_text demo_item = ustr ''x''" "it_slot demo_item = NameSlot 0"
    "it_idx demo_item = 0"
    by (simp_all add: demo_item_def)
  have fl: "fix_loop cut_emoji [((demo_item, [0x3042]), ?new)]
              (?data1, ?s3) 0 =
      (Inl UnicodeEncodeError,
       [demo_block\<lparr>enName := ?new\<rparr>],
       ?s4)"
    using cut(4,5) pr(4) by (simp add: tx assign_def Let_def del: ustr_simps)
  have rg: "range_from_zero 1 2 = [0]" by (simp add: range_from_zero_def)
  have names: "ustr ''strong'' \<noteq> ustr ''primary''" by simp
  have rs: "reset_context demo_no_retry = demo_no_retry"
    by (simp add: reset_context_def demo_no_retry_def demo_def)
  have sl: "py_slice ?failed 0 2 = ?failed" by (simp add: py_slice_def)
  have lp: "second_pass_loop cut_emoji (ustr ''strong'') ?failed 2 [0] (?data1, ?s2) 0 =
      (Inl UnicodeEncodeError,
       [demo_block\<lparr>enName := ?new\<rparr>],
       ?s4)"
    using pr(3) cut(5) by (simp add: Let_def sl tx tb fl del: ustr_simps fix_loop.simps)
  have sp: "second_pass_translation cut_emoji ?failed (?data1, ?s1) =
      (Inl UnicodeEncodeError,
       [demo_block\<lparr>enName := ?new\<rparr>],
       ?s4)"
    using pr(1,2)
    by (simp add: second_pass_translation_def Let_def cfg rg lp names
          del: ustr_simps second_pass_loop.simps)
  have run: "translate_json_file cut_emoji ([demo_block], demo_no_retry) =
      (Inl UnicodeEncodeError,
       [demo_block\<lparr>enName := ?new\<rparr>],
       ?s4)"
    by (simp add: translate_json_file_def Let_def rs cfg
          first_pass_japanese[OF rm(1)] sp del: ustr_simps)
  show ?thesis
    unfolding run using cfg(1,2) by (simp del: ustr_simps)
qed

text \<open>
  C6. The code misses the claim where the service yields nothing during the pass. The
  same record set and configuration; the first reply is Japanese, so the name goes to
  the escalation pass. In the first run every later post fails: the remote client
  gives \<open>None\<close> after its retries. In the second run the reply to the pass has an
  empty content. Either way the batch translator falls back to the preprocessed source
  text, and the pass takes that for a new translation: it is not empty and has no
  Japanese code point, so the pass overwrites the prior target text with the source
  text \<open>x\<close> and counts the item as fixed, where the claim keeps the prior text.
\<close>

theorem escalation_overwrites_without_reply:
  "translate_json_file goes_down ([demo_block], demo_no_retry) =
     (Inr 2,
      [demo_block\<lparr>enName := ustr ''x''\<rparr>],
      demo_no_retry\<lparr>events :=
         [Post (build_request demo_no_retry (batch_prompt demo_no_retry False [ustr ''x'']) []),
          Write (NameSlot 0) [0x3042],
          Post (build_request (set_model (ustr ''strong'') (3 / 10) demo_no_retry)
                  (batch_prompt demo_no_retry False [ustr ''x'']) []),
          Sleep 1,
          Post (build_request (set_model (ustr ''strong'') (3 / 10) demo_no_retry)
                  (batch_prompt demo_no_retry False [ustr ''x'']) []),
          Sleep 1,
          Post (build_request (set_model (ustr ''strong'') (3 / 10) demo_no_retry)
                  (batch_prompt demo_no_retry False [ustr ''x'']) []),
          Write (NameSlot 0) (ustr ''x'')]\<rparr>) \<and>
   translate_json_file goes_silent ([demo_block], demo_no_retry) =
     (Inr 2,
      [demo_block\<lparr>enName := ustr ''x''\<rparr>],
      demo_no_retry\<lparr>events :=
         [Post (build_request demo_no_retry (batch_prompt demo_no_retry False [ustr ''x'']) []),
          Write (NameSlot 0) [0x3042],
          Post (build_request (set_model (ustr ''strong'') (3 / 10) demo_no_retry)
                  (batch_prompt demo_no_retry False [ustr ''x'']) []),
          Write (NameSlot 0) (ustr ''x'')]\<rparr>) \<and>
   remote goes_silent 1 (build_request (set_model (ustr ''strong'') (3 / 10) demo_no_retry)
                           (batch_prompt demo_no_retry False [ustr ''x'']) []) = Content [] \<and>
   jpName demo_block = ustr ''x'' \<and> contains_japanese [0x3042] \<and>
   fails goes_down 1 (build_request (set_model (ustr ''strong'') (3 / 10) demo_no_retry)
                        (batch_prompt demo_no_retry False [ustr ''x'']) []) \<and>
   fails goes_down 2 (build_request (set_model (ustr ''strong'') (3 / 10) demo_no_retry)
                        (batch_prompt demo_no_retry False [ustr ''x'']) []) \<and>
   fails goes_down 3 (build_request (set_model (ustr ''strong'') (3 / 10) demo_no_retry)
                        (batch_prompt demo_no_retry False [ustr ''x'']) [])"
proof -
  let ?p1 = "Post (build_request demo_no_retry (batch_prompt demo_no_retry False [ustr ''x'']) [])"
  let ?w1 = "Write (NameSlot 0) [0x3042]"
  let ?s1 = "demo_no_retry\<lparr>events := [?p1, ?w1]\<rparr>"
  let ?S = "set_model (ustr ''strong'') (3 / 10) demo_no_retry"
  let ?prompt = "batch_prompt demo_no_retry False [ustr ''x'']"
  let ?p2 = "Post (build_request ?S ?prompt [])"
  let ?s2 = "?S\<lparr>events := [?p1, ?w1]\<rparr>"
  let ?s5 = "?S\<lparr>events := [?p1, ?w1, ?p2, Sleep 1, ?p2, Sleep 1, ?p2]\<rparr>"
  let ?s6 = "?S\<lparr>events := [?p1, ?w1, ?p2, Sleep 1, ?p2, Sleep 1, ?p2,
                         Write (NameSlot 0) (ustr ''x'')]\<rparr>"
  let ?failed = "[(demo_item, [0x3042])]"
  let ?data1 = "[demo_block\<lparr>enName := [0x3042]\<rparr>]"
  let ?data2 = "[demo_block\<lparr>enName := ustr ''x''\<rparr>]"
  let ?r1 = "goes_down\<lparr>frames := frames goes_down - 1\<rparr>"
  let ?r2 = "?r1\<lparr>frames := frames ?r1 - 1\<rparr>"
  have rm: "remote goes_down 0 = (\<lambda>r. Content reply_japanese)"
    "\<And>k r. remote goes_down (Suc k) r = Failure (ustr ''timeout'')"
    "\<And>l. console goes_down l" "frames goes_down = 990" "sleep_max goes_down = 9223372036"
    by (simp_all add: goes_down_def offline_def)
  have cfg: "model (llm_config demo_no_retry) = ustr ''primary''"
    "temperature (llm_config demo_no_retry) = 7 / 10"
    "second_pass_model (trans_config demo_no_retry) = Some (ustr ''strong'')"
    "second_pass_temperature (trans_config demo_no_retry) = None"
    "batch_size (trans_config demo_no_retry) = Some 2"
    "dictionary demo_no_retry = []" "\<not> retry_on demo_no_retry"
    "use_batch_translation (trans_config demo_no_retry) = None"
    "retry_attempts (trans_config demo_no_retry) = Some 2"
    "retry_delay (trans_config demo_no_retry) = Some 1"
    by (simp_all add: demo_no_retry_def demo_def retry_on_def)
  have restore: "set_model (ustr ''primary'') (7 / 10) ?S = demo_no_retry"
    by (simp add: set_model_def demo_no_retry_def demo_def)
  have rs: "reset_context demo_no_retry = demo_no_retry"
    by (simp add: reset_context_def demo_no_retry_def demo_def)
  have names: "ustr ''strong'' \<noteq> ustr ''primary''" by simp
  have a: "call_llm goes_down ?prompt [] 0 ?s2 =
      call_llm ?r1 ?prompt [] (0 + 1) (?S\<lparr>events := [?p1, ?w1, ?p2, Sleep 1]\<rparr>)"
    using call_llm_retry[of goes_down ?s2 ?prompt "[]" "ustr ''timeout''" 2 0 1]
    by (simp add: rm cfg)
  have b: "call_llm ?r1 ?prompt [] (0 + 1) (?S\<lparr>events := [?p1, ?w1, ?p2, Sleep 1]\<rparr>) =
      call_llm ?r2 ?prompt [] (0 + 1 + 1) (?S\<lparr>events := [?p1, ?w1, ?p2, Sleep 1, ?p2, Sleep 1]\<rparr>)"
    using call_llm_retry[of ?r1 "?S\<lparr>events := [?p1, ?w1, ?p2, Sleep 1]\<rparr>" ?prompt "[]"
        "ustr ''timeout''" 2 "0 + 1" 1]
    by (simp add: rm cfg)
  have c: "call_llm ?r2 ?prompt [] (0 + 1 + 1)
             (?S\<lparr>events := [?p1, ?w1, ?p2, Sleep 1, ?p2, Sleep 1]\<rparr>) = (Inr None, ?s5)"
    using call_llm_exhausted[of ?r2 "?S\<lparr>events := [?p1, ?w1, ?p2, Sleep 1, ?p2, Sleep 1]\<rparr>"
        ?prompt "[]" "ustr ''timeout''" 2 "0 + 1 + 1"]
    by (simp add: rm cfg)
  have cl: "call_llm goes_down ?prompt [] 0 ?s2 = (Inr None, ?s5)"
    using a b c by simp
  have p1: "preprocess_text ?S tx = tx" for tx
    using cfg(6) by (simp add: preprocess_text_def)
  have cl': "call_llm goes_down (batch_prompt ?s2 False (map (preprocess_text ?s2) [ustr ''x'']))
      [] 0 ?s2 = (Inr None, ?s5)"
    using cl by (simp add: p1 del: ustr_simps)
  have tb: "translate_batch goes_down [ustr ''x''] False 0 ?s2 = (Inr [ustr ''x''], ?s5)"
    using translate_batch_call[OF _ cl', where rc = 0] by (simp add: p1 del: ustr_simps)
  have tx: "it_text demo_item = ustr ''x''" "it_slot demo_item = NameSlot 0"
    "it_idx demo_item = 0"
    by (simp_all add: demo_item_def)
  have nj: "\<not> contains_japanese (ustr ''x'')" "ustr ''x'' \<noteq> []"
    by (simp_all add: contains_japanese_def japanese_code_def)
  have fl: "fix_loop goes_down [((demo_item, [0x3042]), ustr ''x'')] (?data1, ?s5) 0 =
      (Inr 1, ?data2, ?s6)"
    using nj by (simp add: tx assign_def Let_def rm del: ustr_simps)
  have rg: "range_from_zero 1 2 = [0]" by (simp add: range_from_zero_def)
  have sl: "py_slice ?failed 0 2 = ?failed" by (simp add: py_slice_def)
  have lp: "second_pass_loop goes_down (ustr ''strong'') ?failed 2 [0] (?data1, ?s2) 0 =
      (Inr (1, False), ?data2, ?s6)"
    using nj by (simp add: Let_def sl tx tb fl rm del: ustr_simps fix_loop.simps)
  have sp: "second_pass_translation goes_down ?failed (?data1, ?s1) =
      (Inr 1, ?data2, demo_no_retry\<lparr>events := events ?s6\<rparr>)"
    by (simp add: second_pass_translation_def Let_def cfg rg lp names prints_def rm restore
          del: ustr_simps second_pass_loop.simps)
  have cm: "clean_monologue_names (?data2, s) = (0, ?data2, s)" for s
    by (simp add: clean_monologue_names_def Let_def demo_block_def lower_def)
  have run: "translate_json_file goes_down ([demo_block], demo_no_retry) =
      (Inr 2, ?data2, demo_no_retry\<lparr>events := events ?s6\<rparr>)"
    by (simp add: translate_json_file_def Let_def rs cfg
          first_pass_japanese[OF rm(1)] sp cm del: ustr_simps)
  let ?t5 = "?S\<lparr>events := [?p1, ?w1, ?p2]\<rparr>"
  let ?t6 = "?S\<lparr>events := [?p1, ?w1, ?p2, Write (NameSlot 0) (ustr ''x'')]\<rparr>"
  have rm': "remote goes_silent 0 = (\<lambda>r. Content reply_japanese)"
    "\<And>k r. remote goes_silent (Suc k) r = Content []"
    "\<And>l. console goes_silent l"
    by (simp_all add: goes_silent_def offline_def)
  have scl: "call_llm goes_silent (batch_prompt ?s2 False (map (preprocess_text ?s2) [ustr ''x'']))
      [] 0 ?s2 = (Inr (Some []), ?t5)"
    using call_llm_content[of goes_silent ?s2 ?prompt "[]" "[]" 0]
    by (simp add: rm' p1 strip_def del: ustr_simps)
  have stb: "translate_batch goes_silent [ustr ''x''] False 0 ?s2 = (Inr [ustr ''x''], ?t5)"
    using translate_batch_call[OF _ scl, where rc = 0] by (simp add: p1 del: ustr_simps)
  have sfl: "fix_loop goes_silent [((demo_item, [0x3042]), ustr ''x'')] (?data1, ?t5) 0 =
      (Inr 1, ?data2, ?t6)"
    using nj by (simp add: tx assign_def Let_def rm' del: ustr_simps)
  have slp: "second_pass_loop goes_silent (ustr ''strong'') ?failed 2 [0] (?data1, ?s2) 0 =
      (Inr (1, False), ?data2, ?t6)"
    using nj by (simp add: Let_def sl tx stb sfl rm' del: ustr_simps fix_loop.simps)
  have ssp: "second_pass_translation goes_silent ?failed (?data1, ?s1) =
      (Inr 1, ?data2, demo_no_retry\<lparr>events := events ?t6\<rparr>)"
    by (simp add: second_pass_translation_def Let_def cfg rg slp names prints_def rm' restore
          del: ustr_simps second_pass_loop.simps)
  have srun: "translate_json_file goes_silent ([demo_block], demo_no_retry) =
      (Inr 2, ?data2, demo_no_retry\<lparr>events := events ?t6\<rparr>)"
    by (simp add: translate_json_file_def Let_def rs cfg
          first_pass_japanese[OF rm'(1)] ssp cm del: ustr_simps)
  have f: "fails goes_down (Suc k) req" for k req
    by (simp add: fails_def rm)
  have "fails goes_down 1 req" "fails goes_down 2 req" "fails goes_down 3 req" for req
    using f[of 0 req] f[of 1 req] f[of 2 req] by (simp_all add: numeral_2_eq_2 numeral_3_eq_3)
  moreover have "jpName demo_block = ustr ''x''" by (simp add: demo_block_def)
  moreover have "remote goes_silent 1 req = Content []" for req
    using rm'(2)[of 0 req] by simp
  ultimately show ?thesis
    unfolding run srun by (simp add: japanese_reply del: ustr_simps)
qed

section \<open>A run on a populated record set\<close>

lemma filter_enumerate_empty:
  "\<forall>b\<in>set xs. \<not> P b \<Longrightarrow> filter (\<lambda>(i, b). P b) (enumerate n xs) = []"
  by (induction xs arbitrary: n) simp_all

lemma populated_no_items: "populated data \<Longrightarrow> all_items data = []"
proof -
  assume p: "populated data"
  have n: "spec_name_units 0 data = []"
    unfolding spec_name_units_def
    using p filter_enumerate_empty[of data
        "\<lambda>b. enName b = [] \<and> jpName b \<noteq> [] \<and> strip (jpName b) \<noteq> []" 0]
    by (auto simp: populated_def list_all_iff)
  have t: "spec_text_units 0 data = []"
    unfolding spec_text_units_def
    using p filter_enumerate_empty[of data "\<lambda>b. enText b = [] \<and> jpText b \<noteq> []" 0]
    by (auto simp: populated_def list_all_iff)
  have c1: "spec_block_choice_units i 0 (choices b) = []" if "b \<in> set data" for i b
    unfolding spec_block_choice_units_def
    using p that filter_enumerate_empty[of "choices b" "\<lambda>c. c_enText c = [] \<and> c_jpText c \<noteq> []" 0]
    by (auto simp: populated_def list_all_iff)
  have c: "spec_choice_units 0 data = []"
    unfolding spec_choice_units_def
    by (auto simp: c1 in_set_enumerate_eq)
  show ?thesis by (simp add: all_items_def collect_items_eq n t c)
qed

lemma seq_choices_populated:
  "list_all (\<lambda>c. c_jpText c \<noteq> [] \<longrightarrow> c_enText c \<noteq> []) cs \<Longrightarrow>
   seq_choices rt idx j cs ds n = (Inr n, ds)"
  by (induction cs arbitrary: j) auto

lemma seq_field_populated:
  "jp \<noteq> [] \<longrightarrow> en \<noteq> [] \<Longrightarrow> seq_field rt sl is_name jp en ds n = (Inr (en, n), ds)"
  by (auto simp: seq_field_def)

lemma add_to_context_events [simp]:
  "events (add_to_context a b c d s) = events s"
  by (simp add: add_to_context_def Let_def)

lemma seq_blocks_populated:
  "populated blocks \<Longrightarrow>
   \<exists>s'. seq_blocks rt idx blocks (d, s) n = (Inr n, d, s') \<and> events s' = events s"
proof (induction blocks arbitrary: idx s)
  case Nil
  then show ?case by simp
next
  case (Cons b blocks)
  then have pb: "jpName b \<noteq> [] \<longrightarrow> enName b \<noteq> []" "jpText b \<noteq> [] \<longrightarrow> enText b \<noteq> []"
    "list_all (\<lambda>c. c_jpText c \<noteq> [] \<longrightarrow> c_enText c \<noteq> []) (choices b)"
    and rest: "populated blocks"
    by (simp_all add: populated_def)
  let ?s1 = "add_to_context (jpName b) (jpText b) (enName b) (enText b) s"
  from Cons.IH[OF rest, of "Suc idx" ?s1] obtain s' where
    "seq_blocks rt (Suc idx) blocks (d, ?s1) n = (Inr n, d, s')" "events s' = events ?s1"
    by auto
  then show ?case
    by (simp add: Let_def seq_field_populated[OF pb(1)] seq_field_populated[OF pb(2)]
        seq_choices_populated[OF pb(3)])
qed

lemma write_name_append:
  "write_slot (NameSlot (length pre)) t (pre @ b # bs) = pre @ b\<lparr>enName := t\<rparr> # bs"
  by simp

lemma write_text_append:
  "write_slot (TextSlot (length pre)) t (pre @ b # bs) = pre @ b\<lparr>enText := t\<rparr> # bs"
  by simp

lemma clean_loop_eq:
  "fst (fst (clean_loop (length pre) bs (pre @ bs, s) c)) = pre @ map spec_clean_block bs \<and>
   posts (events (snd (fst (clean_loop (length pre) bs (pre @ bs, s) c)))) = posts (events s) \<and>
   (sentinel_free bs \<longrightarrow> snd (fst (clean_loop (length pre) bs (pre @ bs, s) c)) = s)"
proof (induction bs arbitrary: pre s c)
  case Nil
  then show ?case by (simp add: sentinel_free_def)
next
  case (Cons b bs)
  obtain cn ct where c: "c = (cn, ct)" by (cases c) auto
  let ?nh = "lower (enName b) = ustr ''monologue''"
  let ?th = "(jpText b = [] \<or> strip (jpText b) = []) \<and> lower (enText b) = ustr ''monologue''"
  let ?ds1 = "if ?nh then assign (NameSlot (length pre)) [] (pre @ b # bs, s) else (pre @ b # bs, s)"
  let ?ds2 = "if ?th then assign (TextSlot (length pre)) [] ?ds1 else ?ds1"
  have d2: "fst ?ds2 = (pre @ [spec_clean_block b]) @ bs"
    by (simp add: assign_def spec_clean_block_def del: ustr_simps)
  have p2: "posts (events (snd ?ds2)) = posts (events s)"
    by (simp add: assign_def del: ustr_simps)
  have f2: "\<not> ?nh \<Longrightarrow> \<not> ?th \<Longrightarrow> snd ?ds2 = s" by auto
  have unf: "clean_loop (length pre) (b # bs) (pre @ b # bs, s) c =
      clean_loop (length (pre @ [spec_clean_block b])) bs
        ((pre @ [spec_clean_block b]) @ bs, snd ?ds2)
        (if ?nh then Suc cn else cn, if ?th then Suc ct else ct)"
  proof -
    have "clean_loop (length pre) (b # bs) (pre @ b # bs, s) c =
        clean_loop (Suc (length pre)) bs ?ds2
          (if ?nh then Suc cn else cn, if ?th then Suc ct else ct)"
      unfolding c by (simp add: Let_def del: ustr_simps)
    moreover have "?ds2 = (fst ?ds2, snd ?ds2)" by (rule surjective_pairing)
    then have "?ds2 = ((pre @ [spec_clean_block b]) @ bs, snd ?ds2)"
      by (simp only: d2)
    ultimately show ?thesis by (simp del: ustr_simps)
  qed
  from Cons.IH[of "pre @ [spec_clean_block b]" "snd ?ds2"
      "(if ?nh then Suc cn else cn, if ?th then Suc ct else ct)"] p2 f2
  show ?case unfolding unf by (auto simp: sentinel_free_def simp del: ustr_simps)
qed

lemma spec_clean_sentinel_free: "sentinel_free data \<Longrightarrow> map spec_clean_block data = data"
  by (induction data) (auto simp: sentinel_free_def spec_clean_block_def simp del: ustr_simps)

lemma clean_monologue_names_eq:
  "fst (snd (clean_monologue_names (data, s))) = map spec_clean_block data \<and>
   posts (events (snd (snd (clean_monologue_names (data, s))))) = posts (events s) \<and>
   (sentinel_free data \<longrightarrow> snd (snd (clean_monologue_names (data, s))) = s)"
proof -
  obtain ds1 cn ct where cl: "clean_loop 0 data (data, s) (0, 0) = (ds1, cn, ct)"
    by (cases "clean_loop 0 data (data, s) (0, 0)") auto
  then have "clean_monologue_names (data, s) = (cn + ct, ds1)"
    by (simp add: clean_monologue_names_def)
  with clean_loop_eq[of "[]" data s "(0, 0)"] cl show ?thesis by simp
qed

lemma reset_context_events [simp]: "events (reset_context s) = events s"
  by (simp add: reset_context_def)

lemma translation_populated:
  assumes "populated data"
  shows "\<exists>s1. (if use_batch then translate_json_batched rt (data, s)
               else translate_json_sequential rt (data, s)) = (Inr 0, data, s1) \<and>
              events s1 = events s"
proof (cases use_batch)
  case True
  with populated_no_items[OF assms] show ?thesis
    by (simp add: translate_json_batched_def Let_def)
next
  case False
  with seq_blocks_populated[OF assms, of rt 0 data s 0] show ?thesis
    by (simp add: translate_json_sequential_def)
qed

text \<open>
  C1 as stated fails through the cleanup pass: every target field of the block is
  populated, its target name is the placeholder \<open>Monologue\<close>, and the run, which posts
  nothing, blanks that name.
\<close>

theorem populated_run_cleanup_counterexample:
  "populated [monologue_block] \<and>
   translate_json_file offline ([monologue_block], demo) =
     (Inr 0, [monologue_block\<lparr>enName := []\<rparr>], demo\<lparr>events := [Write (NameSlot 0) []]\<rparr>) \<and>
   monologue_block\<lparr>enName := []\<rparr> \<noteq> monologue_block"
proof -
  have p: "populated [monologue_block]"
    by (simp add: populated_def monologue_block_def)
  have ai: "all_items [monologue_block] = []" by (rule populated_no_items[OF p])
  have r: "reset_context demo = demo" by (simp add: reset_context_def demo_def)
  have ub: "use_batch_translation (trans_config demo) = None" "events demo = []"
    by (simp_all add: demo_def)
  have tb: "translate_json_batched offline ([monologue_block], demo) =
      (Inr 0, [monologue_block], demo)"
    by (simp add: translate_json_batched_def Let_def ai)
  have cl: "clean_monologue_names ([monologue_block], demo) =
      (1, [monologue_block\<lparr>enName := []\<rparr>], demo\<lparr>events := [Write (NameSlot 0) []]\<rparr>)"
    by (simp add: clean_monologue_names_def Let_def monologue_block_def lower_def strip_def
        isspace_def assign_def ub)
  have "translate_json_file offline ([monologue_block], demo) =
     (Inr 0, [monologue_block\<lparr>enName := []\<rparr>], demo\<lparr>events := [Write (NameSlot 0) []]\<rparr>)"
    by (simp add: translate_json_file_def Let_def r ub tb cl)
  moreover have "monologue_block\<lparr>enName := []\<rparr> \<noteq> monologue_block"
    by (simp add: monologue_block_def)
  ultimately show ?thesis using p by simp
qed

text \<open>
  C1, amended. On a record set with every target field populated a run of the pipeline,
  batched or sequential, returns a count of zero and posts nothing, and the translation
  stage assigns nothing: the record set that goes to the writer is the one the cleanup
  pass makes of the input, with a target name that lowers to \<open>monologue\<close> blanked, and a
  target text that lowers to it blanked when the source text is empty or whitespace.
  Where no field holds the placeholder in that way, every block and choice is
  unchanged and the trace is the one from before the run.
\<close>

theorem populated_run:
  "populated data \<longrightarrow>
     fst (translate_json_file rt (data, s)) = Inr 0 \<and>
     fst (snd (translate_json_file rt (data, s))) = map spec_clean_block data \<and>
     posts (events (snd (snd (translate_json_file rt (data, s))))) = posts (events s) \<and>
     (sentinel_free data \<longrightarrow>
        fst (snd (translate_json_file rt (data, s))) = data \<and>
        events (snd (snd (translate_json_file rt (data, s)))) = events s)"
proof
  assume p: "populated data"
  let ?ub = "case use_batch_translation (trans_config (reset_context s)) of
               None \<Rightarrow> True | Some b \<Rightarrow> b"
  from translation_populated[OF p, of ?ub rt "reset_context s"] obtain s1 where
    tr: "(if ?ub then translate_json_batched rt (data, reset_context s)
          else translate_json_sequential rt (data, reset_context s)) = (Inr 0, data, s1)"
    and ev: "events s1 = events s" by auto
  obtain k ds2 where cl: "clean_monologue_names (data, s1) = (k, ds2)"
    by (cases "clean_monologue_names (data, s1)") auto
  have res: "translate_json_file rt (data, s) = (Inr 0, ds2)"
    using tr cl by (simp add: translate_json_file_def Let_def)
  from clean_monologue_names_eq[of data s1] cl have
    c: "fst ds2 = map spec_clean_block data" "posts (events (snd ds2)) = posts (events s1)"
      "sentinel_free data \<longrightarrow> snd ds2 = s1"
    by simp_all
  show "fst (translate_json_file rt (data, s)) = Inr 0 \<and>
     fst (snd (translate_json_file rt (data, s))) = map spec_clean_block data \<and>
     posts (events (snd (snd (translate_json_file rt (data, s))))) = posts (events s) \<and>
     (sentinel_free data \<longrightarrow>
        fst (snd (translate_json_file rt (data, s))) = data \<and>
        events (snd (snd (translate_json_file rt (data, s)))) = events s)"
    using res c ev by (auto simp: spec_clean_sentinel_free)
qed

theorem populated_run_witness:
  "populated [alice_block] \<and> sentinel_free [alice_block] \<and>
   fst (translate_json_file offline ([alice_block], demo)) = Inr 0 \<and>
   fst (snd (translate_json_file offline ([alice_block], demo))) = [alice_block] \<and>
   posts (events (snd (snd (translate_json_file offline ([alice_block], demo))))) = 0 \<and>
   events (snd (snd (translate_json_file offline ([alice_block], demo)))) = []"
proof -
  have p: "populated [alice_block]"
    by (simp add: populated_def alice_block_def)
  have f: "sentinel_free [alice_block]"
    by (simp add: sentinel_free_def alice_block_def lower_def)
  have e: "events demo = []" by (simp add: demo_def)
  from populated_run[of "[alice_block]" offline demo] p f
  have "fst (translate_json_file offline ([alice_block], demo)) = Inr 0"
    and "fst (snd (translate_json_file offline ([alice_block], demo))) = [alice_block]"
    and "posts (events (snd (snd (translate_json_file offline ([alice_block], demo))))) =
           posts (events demo)"
    and "events (snd (snd (translate_json_file offline ([alice_block], demo)))) =
           events demo"
    by blast+
  with p f e show ?thesis by simp
qed

end
